theory Spec2Isabelle
  imports Complex_Main
begin

section \<open>SpeedW: the speed filter and the sample pipeline of App.tsx\<close>

text \<open>
  The development embeds the computational core of \<^verbatim>\<open>src/App.tsx\<close>: the scalar Kalman
  filter built by \<^verbatim>\<open>createKalmanFilter\<close>, the unit conversion \<^verbatim>\<open>convertToKmh\<close>, the
  position callback registered by \<^verbatim>\<open>startLocationTracking\<close>, the memoised \<^verbatim>\<open>displaySpeed\<close>
  and the handlers of the limit tiles.

  Numbers, in two layers. The filter and the conversion are first embedded on finite
  values as functions on the reals, with exact arithmetic: \<open>kalmanFilter\<close> and
  \<open>convertToKmh\<close>. The position callback is embedded over JavaScript numbers, which are a
  finite value, \<^verbatim>\<open>Infinity\<close>, \<^verbatim>\<open>-Infinity\<close> or \<^verbatim>\<open>NaN\<close>: there the same source lines are
  \<open>js_kalmanFilter\<close> and \<open>js_convertToKmh\<close>, whose operations overflow to an infinity and
  propagate the non-finite values as IEEE 754 does. The two layers agree as long as no
  operation overflows. Rounding of finite results is not modelled in either layer.
  Millisecond clock readings and sample timestamps are integers.
\<close>

subsection \<open>Constants\<close>

definition SPEED_LIMITS :: "real list" where
  "SPEED_LIMITS = [20, 40, 50, 60, 70, 80, 90, 100, 120]"

definition CALIBRATION :: real where
  "CALIBRATION = 1"

subsection \<open>The Kalman filter\<close>

text \<open>
  The interface \<^verbatim>\<open>KalmanFilterState\<close>, over the type of its numbers: the reals for the
  filter on finite values, JavaScript numbers for the filter inside the position callback.
\<close>

record 'n KalmanFilterState =
  R :: 'n
  Q :: 'n
  P :: 'n
  X :: 'n
  K :: 'n

text \<open>The state object that \<^verbatim>\<open>createKalmanFilter\<close> allocates for the closure it returns.\<close>

definition createKalmanFilter :: "real KalmanFilterState" where
  "createKalmanFilter = \<lparr>R = 0.1, Q = 0.1, P = 1, X = 0, K = 0\<rparr>"

text \<open>
  The closure returned by \<^verbatim>\<open>createKalmanFilter\<close> (bound to \<^verbatim>\<open>kalmanFilter\<close> by its caller):
  four assignments to the captured state, in the order of the source, then the estimate
  is returned. The model returns the value together with the mutated state.
\<close>

definition kalmanFilter ::
  "real KalmanFilterState \<Rightarrow> real \<Rightarrow> real \<times> real KalmanFilterState" where
  "kalmanFilter state measurement =
     (let s1 = state\<lparr>P := P state + Q state\<rparr>;
          s2 = s1\<lparr>K := P s1 / (P s1 + R s1)\<rparr>;
          s3 = s2\<lparr>X := X s2 + K s2 * (measurement - X s2)\<rparr>;
          s4 = s3\<lparr>P := (1 - K s3) * P s3\<rparr>
      in (X s4, s4))"

text \<open>The states stored after each call when a list of measurements is fed in order.\<close>

fun filterStates ::
  "real KalmanFilterState \<Rightarrow> real list \<Rightarrow> real KalmanFilterState list" where
  "filterStates state [] = []"
| "filterStates state (m # ms) =
     (let state' = snd (kalmanFilter state m) in state' # filterStates state' ms)"

text \<open>The state left after the last call.\<close>

fun feed :: "real KalmanFilterState \<Rightarrow> real list \<Rightarrow> real KalmanFilterState" where
  "feed state [] = state"
| "feed state (m # ms) = feed (snd (kalmanFilter state m)) ms"

subsection \<open>Unit conversion\<close>

definition convertToKmh :: "real \<Rightarrow> real" where
  "convertToKmh speedInMs = max 0 (speedInMs * 3.6)"

text \<open>The conversion as the specification words it: clamp first, then multiply.\<close>

definition spec_convertToKmh :: "real \<Rightarrow> real" where
  "spec_convertToKmh s = max 0 s * 3.6"

subsection \<open>JavaScript numbers\<close>

text \<open>
  A number of the running program. An operation on finite operands yields the exact
  result, unless its magnitude reaches \<open>2\<^sup>1\<^sup>0\<^sup>2\<^sup>4 - 2\<^sup>9\<^sup>7\<^sup>0\<close>, from where rounding to nearest
  leaves the finite doubles: then it yields the infinity of that sign. Operations on
  non-finite operands follow IEEE 754. The zero of the model carries no sign: it stands for
  \<open>+0\<close>.
\<close>

datatype number = Finite real | Infinity | NegInfinity | NaN

definition overflow_threshold :: real where
  "overflow_threshold = 2 ^ 1024 - 2 ^ 970"

definition overflow :: "real \<Rightarrow> number" where
  "overflow x =
     (if overflow_threshold \<le> x then Infinity
      else if x \<le> - overflow_threshold then NegInfinity
      else Finite x)"

fun js_add :: "number \<Rightarrow> number \<Rightarrow> number" where
  "js_add NaN y = NaN"
| "js_add x NaN = NaN"
| "js_add (Finite a) (Finite b) = overflow (a + b)"
| "js_add Infinity NegInfinity = NaN"
| "js_add NegInfinity Infinity = NaN"
| "js_add Infinity y = Infinity"
| "js_add x Infinity = Infinity"
| "js_add NegInfinity y = NegInfinity"
| "js_add x NegInfinity = NegInfinity"

fun js_negate :: "number \<Rightarrow> number" where
  "js_negate (Finite a) = Finite (- a)"
| "js_negate Infinity = NegInfinity"
| "js_negate NegInfinity = Infinity"
| "js_negate NaN = NaN"

definition js_sub :: "number \<Rightarrow> number \<Rightarrow> number" where
  "js_sub x y = js_add x (js_negate y)"

fun js_mul :: "number \<Rightarrow> number \<Rightarrow> number" where
  "js_mul NaN y = NaN"
| "js_mul x NaN = NaN"
| "js_mul (Finite a) (Finite b) = overflow (a * b)"
| "js_mul (Finite a) y =
     (if a = 0 then NaN else if (0 < a) = (y = Infinity) then Infinity else NegInfinity)"
| "js_mul x (Finite b) =
     (if b = 0 then NaN else if (0 < b) = (x = Infinity) then Infinity else NegInfinity)"
| "js_mul x y = (if x = y then Infinity else NegInfinity)"

fun js_div :: "number \<Rightarrow> number \<Rightarrow> number" where
  "js_div NaN y = NaN"
| "js_div x NaN = NaN"
| "js_div (Finite a) (Finite b) =
     (if b = 0 then (if a = 0 then NaN else if 0 < a then Infinity else NegInfinity)
      else overflow (a / b))"
| "js_div (Finite a) y = Finite 0"
| "js_div x (Finite b) = (if (0 \<le> b) = (x = Infinity) then Infinity else NegInfinity)"
| "js_div x y = NaN"

text \<open>\<^verbatim>\<open>Math.max\<close> of two numbers, and the comparisons \<^verbatim>\<open>>=\<close> and \<^verbatim>\<open><\<close>.\<close>

fun js_max :: "number \<Rightarrow> number \<Rightarrow> number" where
  "js_max NaN y = NaN"
| "js_max x NaN = NaN"
| "js_max Infinity y = Infinity"
| "js_max x Infinity = Infinity"
| "js_max NegInfinity y = y"
| "js_max x NegInfinity = x"
| "js_max (Finite a) (Finite b) = Finite (max a b)"

fun js_ge :: "number \<Rightarrow> number \<Rightarrow> bool" where
  "js_ge NaN y = False"
| "js_ge x NaN = False"
| "js_ge Infinity y = True"
| "js_ge x NegInfinity = True"
| "js_ge (Finite a) (Finite b) = (a \<ge> b)"
| "js_ge x y = False"

fun js_lt :: "number \<Rightarrow> number \<Rightarrow> bool" where
  "js_lt NaN y = False"
| "js_lt x NaN = False"
| "js_lt (Finite a) (Finite b) = (a < b)"
| "js_lt Infinity y = False"
| "js_lt x NegInfinity = False"
| "js_lt x y = True"

subsection \<open>The filter and the conversion on JavaScript numbers\<close>

text \<open>
  The same lines of the source as \<open>createKalmanFilter\<close>, \<open>kalmanFilter\<close> and
  \<open>convertToKmh\<close>, with the operations of JavaScript numbers.
\<close>

definition js_createKalmanFilter :: "number KalmanFilterState" where
  "js_createKalmanFilter = \<lparr>R = Finite 0.1, Q = Finite 0.1, P = Finite 1, X = Finite 0, K = Finite 0\<rparr>"

definition js_kalmanFilter ::
  "number KalmanFilterState \<Rightarrow> number \<Rightarrow> number \<times> number KalmanFilterState" where
  "js_kalmanFilter state measurement =
     (let s1 = state\<lparr>P := js_add (P state) (Q state)\<rparr>;
          s2 = s1\<lparr>K := js_div (P s1) (js_add (P s1) (R s1))\<rparr>;
          s3 = s2\<lparr>X := js_add (X s2) (js_mul (K s2) (js_sub measurement (X s2)))\<rparr>;
          s4 = s3\<lparr>P := js_mul (js_sub (Finite 1) (K s3)) (P s3)\<rparr>
      in (X s4, s4))"

definition js_convertToKmh :: "number \<Rightarrow> number" where
  "js_convertToKmh speedInMs = js_max (Finite 0) (js_mul speedInMs (Finite 3.6))"

text \<open>A filter state of finite values, as a state of JavaScript numbers.\<close>

definition finite_state :: "real KalmanFilterState \<Rightarrow> number KalmanFilterState" where
  "finite_state s =
     \<lparr>R = Finite (R s), Q = Finite (Q s), P = Finite (P s), X = Finite (X s), K = Finite (K s)\<rparr>"

text \<open>
  The filter states the callback holds as long as no speed has overflowed: finite values
  with the noise constants 0.1, a covariance between 0 and 1, and a non-negative estimate
  that stays below the overflow threshold when the calibration constant is added.
\<close>

definition finite_filter :: "number KalmanFilterState \<Rightarrow> bool" where
  "finite_filter k =
     (\<exists>s. k = finite_state s \<and> R s = 1/10 \<and> Q s = 1/10 \<and> 0 \<le> P s \<and> P s \<le> 1 \<and>
          0 \<le> X s \<and> X s + 1 < overflow_threshold)"

subsection \<open>One-decimal formatting\<close>

text \<open>
  \<^verbatim>\<open>Number.prototype.toFixed(1)\<close> yields a string. For a finite argument: a minus sign when
  it is negative, then, for a magnitude below \<open>10\<^sup>2\<^sup>1\<close>, the decimal digits of the integer
  \<open>n\<close> for which \<open>n / 10\<close> is nearest to the magnitude (the larger \<open>n\<close> on a tie) with a
  point before the last digit, and for a larger magnitude the general number-to-string
  conversion. For a non-finite argument: \<^verbatim>\<open>Infinity\<close>, \<^verbatim>\<open>-Infinity\<close> or \<^verbatim>\<open>NaN\<close>. The string is
  represented by its sign and what follows it. \<^verbatim>\<open>parseFloat\<close> reads such a string back.
\<close>

datatype digits = Tenths nat | General real | InfinityText | NaNText

type_synonym numstr = "bool \<times> digits"

fun toFixed1 :: "number \<Rightarrow> numstr" where
  "toFixed1 (Finite x) =
     (let neg = x < 0; a = (if neg then - x else x)
      in if a \<ge> 10 ^ 21 then (neg, General a)
         else (neg, Tenths (nat \<lfloor>a * 10 + 1 / 2\<rfloor>)))"
| "toFixed1 Infinity = (False, InfinityText)"
| "toFixed1 NegInfinity = (True, InfinityText)"
| "toFixed1 NaN = (False, NaNText)"

fun parseFloat :: "numstr \<Rightarrow> number" where
  "parseFloat (neg, Tenths n) = Finite (if neg then - (real n / 10) else real n / 10)"
| "parseFloat (neg, General a) = Finite (if neg then - a else a)"
| "parseFloat (neg, InfinityText) = (if neg then NegInfinity else Infinity)"
| "parseFloat (neg, NaNText) = NaN"

subsection \<open>Application state\<close>

text \<open>
  A position delivered by the geolocation watch. The speed, when present, is finite.
  \<open>None\<close> is an absent field: \<^verbatim>\<open>null\<close> or \<^verbatim>\<open>undefined\<close> for speed and accuracy, which \<^verbatim>\<open>??\<close>
  treats alike, and \<^verbatim>\<open>undefined\<close> for the timestamp.
\<close>

record Location =
  speed :: "real option"
  coords_accuracy :: "real option"
  location_timestamp :: "int option"

record SpeedData =
  currentSpeed :: number
  accuracy :: real
  timestamp :: "int option"

text \<open>
  The mutable cells the position callback reads and writes: the \<^verbatim>\<open>speedData\<close> state, the
  two refs \<^verbatim>\<open>speedLimitRef\<close> and \<^verbatim>\<open>lastSpeedWarning\<close>, and the state of the filter created by
  \<^verbatim>\<open>startLocationTracking\<close>. \<open>warnings\<close> records the clock reading of each call of
  \<^verbatim>\<open>playWarningSound\<close> made by the callback, latest first.
\<close>

record AppState =
  speedData :: SpeedData
  speedLimitRef :: number
  lastSpeedWarning :: int
  kalman :: "number KalmanFilterState"
  warnings :: "int list"

text \<open>\<^verbatim>\<open>INITIAL_SPEED = SPEED_LIMITS[3]\<close>; the index is in range.\<close>

definition INITIAL_SPEED :: number where
  "INITIAL_SPEED = Finite (SPEED_LIMITS ! 3)"

text \<open>The state when tracking starts; \<open>t0\<close> is \<^verbatim>\<open>Date.now()\<close> at the first render.\<close>

definition initialAppState :: "int \<Rightarrow> AppState" where
  "initialAppState t0 =
     \<lparr>speedData = \<lparr>currentSpeed = Finite 0, accuracy = 0, timestamp = Some t0\<rparr>,
      speedLimitRef = INITIAL_SPEED,
      lastSpeedWarning = 0,
      kalman = js_createKalmanFilter,
      warnings = []\<rparr>"

text \<open>
  \<^verbatim>\<open>new Date(t).toISOString()\<close> throws a \<^verbatim>\<open>RangeError\<close> when the time value is not finite:
  for \<^verbatim>\<open>undefined\<close>, and beyond 8.64e15 ms from the epoch. Only whether it throws is
  modelled; the debug text built from it does not reach the rest of the callback.
\<close>

definition toISOString_throws :: "int option \<Rightarrow> bool" where
  "toISOString_throws t =
     (case t of None \<Rightarrow> True | Some v \<Rightarrow> \<bar>v\<bar> > 8640000000000000)"

datatype outcome = Completed | RangeError

subsection \<open>The position callback\<close>

text \<open>
  The success callback passed to \<^verbatim>\<open>Geolocation.watchPosition\<close>; \<open>now\<close> is the value
  \<^verbatim>\<open>Date.now()\<close> would return during the call. The writes made before the debug text is
  built persist when building it throws.
\<close>

definition onLocation :: "AppState \<Rightarrow> Location \<Rightarrow> int \<Rightarrow> outcome \<times> AppState" where
  "onLocation st location now =
     (let rawSpeed = (case speed location of None \<Rightarrow> Finite 0 | Some v \<Rightarrow> Finite v);
          speedInKmh = js_convertToKmh rawSpeed;
          r = js_kalmanFilter (kalman st) speedInKmh;
          filteredSpeed = js_add (fst r) (Finite CALIBRATION);
          currentSpeed' = parseFloat (toFixed1 filteredSpeed);
          st1 = st\<lparr>kalman := snd r,
                   speedData :=
                     \<lparr>currentSpeed = currentSpeed',
                      accuracy = (case coords_accuracy location of None \<Rightarrow> 0 | Some a \<Rightarrow> a),
                      timestamp = location_timestamp location\<rparr>\<rparr>
      in if toISOString_throws (location_timestamp location) then (RangeError, st1)
         else if js_ge currentSpeed' (speedLimitRef st1) then
           (if now - lastSpeedWarning st1 > 5000
            then (Completed, st1\<lparr>warnings := now # warnings st1, lastSpeedWarning := now\<rparr>)
            else (Completed, st1))
         else (Completed, st1))"

text \<open>
  A stream of positions, each with the clock reading at its delivery. An exception leaves
  the callback only; the watch stays subscribed and the next position is delivered to the
  state as the failed call left it.
\<close>

fun run :: "AppState \<Rightarrow> (Location \<times> int) list \<Rightarrow> AppState" where
  "run st [] = st"
| "run st ((location, now) # rest) = run (snd (onLocation st location now)) rest"

text \<open>The states published after each position of a stream.\<close>

fun published :: "AppState \<Rightarrow> (Location \<times> int) list \<Rightarrow> AppState list" where
  "published st [] = []"
| "published st ((location, now) # rest) =
     (let st' = snd (onLocation st location now) in st' # published st' rest)"

text \<open>
  A log of alert times, latest first, in which each alert comes more than 5000 ms after
  the one before it.
\<close>

fun spaced :: "int list \<Rightarrow> bool" where
  "spaced [] = True"
| "spaced [a] = True"
| "spaced (a # b # rest) = (a - b > 5000 \<and> spaced (b # rest))"

text \<open>
  A position whose speed the callback handles without overflow: the product with 3.6 and
  the calibrated estimate stay below the overflow threshold. The bound on the raw speed is
  about 4.99e307 m/s.
\<close>

definition speed_in_range :: "Location \<Rightarrow> bool" where
  "speed_in_range location =
     (case speed location of None \<Rightarrow> True | Some v \<Rightarrow> v * 3.6 + 1 < overflow_threshold)"

subsection \<open>Display and limit tiles\<close>

text \<open>\<^verbatim>\<open>displaySpeed\<close>: the zero floor below 2, then \<^verbatim>\<open>toFixed(1)\<close>.\<close>

definition displaySpeed :: "SpeedData \<Rightarrow> numstr" where
  "displaySpeed sd =
     (let result = currentSpeed sd;
          result = (if js_lt result (Finite 2) then Finite 0 else result)
      in toFixed1 result)"

text \<open>
  The handlers of a numbered tile and of the OFF tile, as far as the callback can observe
  them: the new value of \<^verbatim>\<open>speedLimitRef\<close>. (OFF also releases the watch and reloads the
  sound.)
\<close>

definition pressLimit :: "real \<Rightarrow> AppState \<Rightarrow> AppState" where
  "pressLimit l st = st\<lparr>speedLimitRef := Finite l\<rparr>"

definition pressOff :: "AppState \<Rightarrow> AppState" where
  "pressOff st = st\<lparr>speedLimitRef := Infinity\<rparr>"

section \<open>Properties\<close>

subsection \<open>The filter update\<close>

lemma kalmanFilter_state:
  "snd (kalmanFilter s m) =
     s\<lparr>P := (1 - (P s + Q s) / (P s + Q s + R s)) * (P s + Q s),
       X := X s + (P s + Q s) / (P s + Q s + R s) * (m - X s),
       K := (P s + Q s) / (P s + Q s + R s)\<rparr>"
  by (simp add: kalmanFilter_def Let_def)

lemma kalmanFilter_value: "fst (kalmanFilter s m) = X (snd (kalmanFilter s m))"
  by (simp add: kalmanFilter_def Let_def)

lemma createKalmanFilter_fields:
  "R createKalmanFilter = 1/10" "Q createKalmanFilter = 1/10" "P createKalmanFilter = 1"
  "X createKalmanFilter = 0" "K createKalmanFilter = 0"
  by (simp_all add: createKalmanFilter_def)

lemma step_fields:
  "R (snd (kalmanFilter s m)) = R s"
  "Q (snd (kalmanFilter s m)) = Q s"
  "K (snd (kalmanFilter s m)) = (P s + Q s) / (P s + Q s + R s)"
  "X (snd (kalmanFilter s m)) = X s + (P s + Q s) / (P s + Q s + R s) * (m - X s)"
  "P (snd (kalmanFilter s m)) = (1 - (P s + Q s) / (P s + Q s + R s)) * (P s + Q s)"
  by (simp_all add: kalmanFilter_state)

text \<open>
  C1. One call of the filter on measurement \<open>m\<close> from prior state \<open>s\<close> computes the
  predicted covariance \<open>P' = P + Q\<close>, the gain \<open>P' / (P' + R)\<close>, the estimate
  \<open>X + gain * (m - X)\<close> and the covariance \<open>(1 - gain) * P'\<close>, stores estimate, covariance
  and gain, and returns the estimate; a new filter starts from estimate 0, covariance 1,
  gain 0 with both noise constants 0.1. The denominator is assumed non-zero, where the
  quotient of reals is the quotient the program computes.
\<close>

theorem kalmanFilter_update_exact:
  assumes "P s + Q s + R s \<noteq> 0"
  shows "createKalmanFilter = \<lparr>R = 0.1, Q = 0.1, P = 1, X = 0, K = 0\<rparr> \<and>
    (let P' = P s + Q s;
         g = P' / (P' + R s);
         x = X s + g * (m - X s);
         c = (1 - g) * P'
     in kalmanFilter s m = (x, s\<lparr>P := c, X := x, K := g\<rparr>))"
  by (simp add: createKalmanFilter_def kalmanFilter_def Let_def)

theorem kalmanFilter_update_exact_witness:
  "P createKalmanFilter + Q createKalmanFilter + R createKalmanFilter \<noteq> 0 \<and>
   kalmanFilter createKalmanFilter 108 =
     (99, \<lparr>R = 1/10, Q = 1/10, P = 11/120, X = 99, K = 11/12\<rparr>)"
  using kalmanFilter_update_exact [of createKalmanFilter 108]
  by (simp add: createKalmanFilter_def Let_def)

subsection \<open>Bounds on covariance and gain\<close>

text \<open>
  The covariance after a call is \<open>R * P' / (P' + R)\<close>; with \<open>R = Q = 0.1\<close> and a
  non-negative prior covariance, \<open>P' \<ge> 0.1\<close>, which gives the bounds of one step.
\<close>

lemma step_P:
  assumes "P s + Q s + R s \<noteq> 0"
  shows "P (snd (kalmanFilter s m)) = R s * (P s + Q s) / (P s + Q s + R s)"
  using assms by (simp add: step_fields field_simps)

lemma step_gain:
  assumes "0 \<le> P s" "R s = 1/10" "Q s = 1/10"
  shows "1/2 \<le> K (snd (kalmanFilter s m))" "K (snd (kalmanFilter s m)) < 1"
  using assms by (simp_all add: step_fields field_simps)

lemma step_cov:
  assumes "0 \<le> P s" "R s = 1/10" "Q s = 1/10"
  shows "1/20 \<le> P (snd (kalmanFilter s m))" "P (snd (kalmanFilter s m)) < 1/10"
proof -
  define p where "p = P s"
  have p: "0 \<le> p" using assms by (simp add: p_def)
  have "P s + Q s + R s \<noteq> 0" using assms by simp
  then have eq: "P (snd (kalmanFilter s m)) = 1/10 * (p + 1/10) / (p + 1/10 + 1/10)"
    by (simp add: step_P assms p_def)
  show "1/20 \<le> P (snd (kalmanFilter s m))"
    unfolding eq using p by (simp add: field_simps)
  show "P (snd (kalmanFilter s m)) < 1/10"
    unfolding eq using p by (simp add: field_simps)
qed

lemma filterStates_length: "length (filterStates s ms) = length ms"
  by (induction ms arbitrary: s) (simp_all add: Let_def)

lemma filterStates_inv:
  assumes "0 \<le> P s" "R s = 1/10" "Q s = 1/10" "t \<in> set (filterStates s ms)"
  shows "1/20 \<le> P t \<and> P t < 1/10 \<and> 1/2 \<le> K t \<and> K t < 1 \<and> R t = 1/10 \<and> Q t = 1/10"
  using assms
proof (induction ms arbitrary: s)
  case Nil
  then show ?case by simp
next
  case (Cons m ms)
  let ?s' = "snd (kalmanFilter s m)"
  have here: "1/20 \<le> P ?s' \<and> P ?s' < 1/10 \<and> 1/2 \<le> K ?s' \<and> K ?s' < 1 \<and>
      R ?s' = 1/10 \<and> Q ?s' = 1/10"
    using Cons.prems(1-3) step_cov [of s m] step_gain [of s m] by (simp add: step_fields(1,2))
  from Cons.prems(4) have "t = ?s' \<or> t \<in> set (filterStates ?s' ms)"
    by (simp add: Let_def)
  then show ?case
  proof
    assume "t = ?s'"
    with here show ?thesis by simp
  next
    assume "t \<in> set (filterStates ?s' ms)"
    moreover from here have "0 \<le> P ?s'" by simp
    ultimately show ?thesis using here Cons.IH [of ?s'] by simp
  qed
qed

text \<open>
  C2. For every finite list of non-negative measurements fed to a new filter, one state is
  stored per measurement, and in each of them, the first included, the covariance is
  positive and at most \<open>P0 + Q = 1.1\<close> and the gain lies between 0 and 1.
\<close>

theorem filter_covariance_gain_bounds:
  assumes "\<forall>m \<in> set ms. 0 \<le> m"
  shows "length (filterStates createKalmanFilter ms) = length ms \<and>
    P createKalmanFilter + Q createKalmanFilter = 1.1 \<and>
    (\<forall>t \<in> set (filterStates createKalmanFilter ms).
       0 < P t \<and> P t \<le> P createKalmanFilter + Q createKalmanFilter \<and> 0 \<le> K t \<and> K t \<le> 1)"
proof -
  have "0 < P t \<and> P t \<le> P createKalmanFilter + Q createKalmanFilter \<and> 0 \<le> K t \<and> K t \<le> 1"
    if "t \<in> set (filterStates createKalmanFilter ms)" for t
    using filterStates_inv [of createKalmanFilter t ms] that
    by (simp add: createKalmanFilter_fields)
  then show ?thesis
    by (simp add: filterStates_length createKalmanFilter_fields)
qed

theorem filter_covariance_gain_bounds_witness:
  "0 \<le> (0::real) \<and> 0 \<le> (36::real) \<and> 0 \<le> (108::real) \<and>
   filterStates createKalmanFilter [0, 36, 108] =
     [\<lparr>R = 1/10, Q = 1/10, P = 11/120, X = 0, K = 11/12\<rparr>,
      \<lparr>R = 1/10, Q = 1/10, P = 23/350, X = 828/35, K = 23/35\<rparr>,
      \<lparr>R = 1/10, Q = 1/10, P = 29/465, X = 2364/31, K = 58/93\<rparr>] \<and>
   0 < P (filterStates createKalmanFilter [0, 36, 108] ! 0) \<and>
   P (filterStates createKalmanFilter [0, 36, 108] ! 0) \<le> 11/10 \<and>
   0 \<le> K (filterStates createKalmanFilter [0, 36, 108] ! 0) \<and>
   K (filterStates createKalmanFilter [0, 36, 108] ! 0) \<le> 1"
  using filter_covariance_gain_bounds [of "[0, 36, 108]"]
  by (simp add: createKalmanFilter_def kalmanFilter_state Let_def)

text \<open>
  C10. With \<open>R = Q = 0.1\<close>, in every state stored while any finite list of measurements
  is fed to a new filter, the covariance is at least \<open>R * Q / (R + Q) = 0.05\<close> and below
  \<open>R = 0.1\<close>, and the gain is at least \<open>Q / (Q + R) = 0.5\<close>: the covariance stays away
  from 0.
\<close>

theorem filter_covariance_bounded_below:
  "\<forall>t \<in> set (filterStates createKalmanFilter ms).
     R t * Q t / (R t + Q t) = 0.05 \<and> 0.05 \<le> P t \<and> P t < R t \<and> R t = 0.1 \<and>
     Q t / (Q t + R t) = 0.5 \<and> 0.5 \<le> K t"
proof
  fix t
  assume "t \<in> set (filterStates createKalmanFilter ms)"
  then have "1/20 \<le> P t \<and> P t < 1/10 \<and> 1/2 \<le> K t \<and> K t < 1 \<and> R t = 1/10 \<and> Q t = 1/10"
    using filterStates_inv [of createKalmanFilter t ms] by (simp add: createKalmanFilter_fields)
  then have b: "1/20 \<le> P t" "P t < 1/10" "1/2 \<le> K t" and r: "R t = 1/10" and q: "Q t = 1/10"
    by simp_all
  from b show "R t * Q t / (R t + Q t) = 0.05 \<and> 0.05 \<le> P t \<and> P t < R t \<and> R t = 0.1 \<and>
     Q t / (Q t + R t) = 0.5 \<and> 0.5 \<le> K t"
    unfolding r q by simp
qed

theorem filter_covariance_bounded_below_witness:
  "0.05 \<le> P (filterStates createKalmanFilter [0, 36, 108] ! 2) \<and>
   P (filterStates createKalmanFilter [0, 36, 108] ! 2) < 0.1 \<and>
   0.5 \<le> K (filterStates createKalmanFilter [0, 36, 108] ! 2) \<and>
   P (filterStates createKalmanFilter [0, 36, 108] ! 2) = 29/465"
  using filter_covariance_bounded_below [of "[0, 36, 108]"]
  by (simp add: createKalmanFilter_def kalmanFilter_state Let_def)

subsection \<open>A constant measurement\<close>

text \<open>Feeding one more measurement is one more call on the state reached so far.\<close>

lemma feed_snoc: "feed s (ms @ [m]) = snd (kalmanFilter (feed s ms) m)"
  by (induction ms arbitrary: s) simp_all

lemma feed_replicate_Suc:
  "feed s (replicate (Suc n) m) = snd (kalmanFilter (feed s (replicate n m)) m)"
  using feed_snoc [of s "replicate n m" m] by (simp add: replicate_append_same)

lemma feed_inv:
  assumes "0 \<le> P s" "R s = 1/10" "Q s = 1/10"
  shows "0 \<le> P (feed s ms) \<and> R (feed s ms) = 1/10 \<and> Q (feed s ms) = 1/10"
  using assms
proof (induction ms arbitrary: s)
  case Nil
  then show ?case by simp
next
  case (Cons m ms)
  have "0 \<le> P (snd (kalmanFilter s m))"
    using step_cov(1) [OF Cons.prems, of m] by simp
  then show ?case
    using Cons.prems by (simp add: Cons.IH step_fields(1,2))
qed

lemma feed_new_inv:
  "0 \<le> P (feed createKalmanFilter ms)" "R (feed createKalmanFilter ms) = 1/10"
  "Q (feed createKalmanFilter ms) = 1/10"
  using feed_inv [of createKalmanFilter ms] by (simp_all add: createKalmanFilter_fields)

text \<open>
  The gain is at least one half, so each call at least halves the distance between the
  estimate and the measurement.
\<close>

lemma step_error:
  assumes "0 \<le> P s" "R s = 1/10" "Q s = 1/10"
  shows "\<bar>X (snd (kalmanFilter s m)) - m\<bar> \<le> \<bar>X s - m\<bar> / 2"
proof -
  define g where "g = K (snd (kalmanFilter s m))"
  have g: "1/2 \<le> g" "g < 1" unfolding g_def using step_gain [OF assms] by simp_all
  have "X (snd (kalmanFilter s m)) = X s + g * (m - X s)"
    by (simp add: g_def step_fields)
  then have "X (snd (kalmanFilter s m)) - m = (1 - g) * (X s - m)"
    by (simp add: algebra_simps)
  then have "\<bar>X (snd (kalmanFilter s m)) - m\<bar> = (1 - g) * \<bar>X s - m\<bar>"
    using g by (simp add: abs_mult)
  also have "\<dots> \<le> 1/2 * \<bar>X s - m\<bar>"
    using g by (intro mult_right_mono) simp_all
  finally show ?thesis by simp
qed

lemma constant_error_bound:
  "\<bar>X (feed createKalmanFilter (replicate n m)) - m\<bar> \<le> (1/2) ^ n * \<bar>m\<bar>"
proof (induction n)
  case 0
  then show ?case by (simp add: createKalmanFilter_fields)
next
  case (Suc n)
  let ?s = "feed createKalmanFilter (replicate n m)"
  have inv: "0 \<le> P ?s" "R ?s = 1/10" "Q ?s = 1/10"
    using feed_inv [of createKalmanFilter "replicate n m"] by (simp_all add: createKalmanFilter_fields)
  have "\<bar>X (feed createKalmanFilter (replicate (Suc n) m)) - m\<bar> \<le> \<bar>X ?s - m\<bar> / 2"
    unfolding feed_replicate_Suc by (rule step_error [OF inv])
  also have "\<dots> \<le> ((1/2) ^ n * \<bar>m\<bar>) / 2"
    using Suc.IH by simp
  finally show ?case by simp
qed

lemma constant_estimate_limit:
  "(\<lambda>n. X (feed createKalmanFilter (replicate n m))) \<longlonglongrightarrow> m"
proof -
  have pow: "(\<lambda>n. (1/2 :: real) ^ n) \<longlonglongrightarrow> 0"
    by (rule LIMSEQ_realpow_zero) simp_all
  have "(\<lambda>n. X (feed createKalmanFilter (replicate n m)) - m) \<longlonglongrightarrow> 0"
  proof (rule tendsto_0_le [OF pow])
    show "\<forall>\<^sub>F n in sequentially.
        norm (X (feed createKalmanFilter (replicate n m)) - m) \<le> norm ((1/2 :: real) ^ n) * \<bar>m\<bar>"
      using constant_error_bound [of _ m] by (intro always_eventually allI) simp
  qed
  then show ?thesis by (simp add: LIM_zero_iff)
qed

text \<open>
  The covariance recursion \<open>p \<mapsto> 0.1 * (p + 0.1) / (p + 0.2)\<close> has the positive fixed
  point \<open>(sqrt 5 - 1) / 20\<close>, about 0.0618, and contracts towards it by a factor of at
  least 4 on the non-negative reals.
\<close>

lemma fixed_point:
  fixes q :: real
  assumes "q = (sqrt 5 - 1) / 20"
  shows "0 < q" and "q * q + q / 10 = 1 / 100"
proof -
  define c :: real where "c = sqrt 5"
  have c2: "c * c = 5" by (simp add: c_def)
  have "sqrt 1 < sqrt 5" by (simp del: real_sqrt_one)
  then have c1: "1 < c" by (simp add: c_def)
  have q: "q = (c - 1) / 20" using assms by (simp add: c_def)
  show "0 < q" using c1 by (simp add: q)
  have "q * q + q / 10 = (c * c - 1) / 400"
    by (simp add: q field_simps)
  then show "q * q + q / 10 = 1 / 100" by (simp add: c2)
qed

lemma step_cov_contract:
  assumes "0 \<le> P s" "R s = 1/10" "Q s = 1/10"
  shows "\<bar>P (snd (kalmanFilter s m)) - (sqrt 5 - 1) / 20\<bar> \<le> \<bar>P s - (sqrt 5 - 1) / 20\<bar> / 4"
proof -
  define p where "p = P s"
  define q :: real where "q = (sqrt 5 - 1) / 20"
  have p: "0 \<le> p" using assms by (simp add: p_def)
  have q: "0 < q" and fp: "q * q + q / 10 = 1 / 100"
    using fixed_point [OF q_def] by simp_all
  have "P s + Q s + R s \<noteq> 0" using assms by simp
  then have eq: "P (snd (kalmanFilter s m)) = 1/10 * (p + 1/10) / (p + 1/5)"
    by (simp add: step_P assms p_def)
  define d where "d = (p + 1/5) * (q + 1/5)"
  have "1/5 * (1/5) \<le> (p + 1/5) * (q + 1/5)"
    using p q by (intro mult_mono) simp_all
  then have d: "1/25 \<le> d" by (simp add: d_def)
  have "(1/10 * (p + 1/10) / (p + 1/5) - q) * d = 1/100 * (p - q) + (p + 1/5) * (1/100 - (q * q + q / 10))"
    using p by (simp add: d_def field_simps)
  then have "(1/10 * (p + 1/10) / (p + 1/5) - q) * d = 1/100 * (p - q)"
    by (simp add: fp)
  then have diff: "1/10 * (p + 1/10) / (p + 1/5) - q = 1/100 * (p - q) / d"
    using d by (simp add: field_simps)
  have "\<bar>1/100 * (p - q) / d\<bar> = (1/100 * \<bar>p - q\<bar>) / d"
    using d by (simp add: abs_mult)
  also have "\<dots> \<le> (1/100 * \<bar>p - q\<bar>) / (1/25)"
    using d by (intro divide_left_mono) simp_all
  finally have "\<bar>1/100 * (p - q) / d\<bar> \<le> \<bar>p - q\<bar> / 4" by simp
  then have "\<bar>P (snd (kalmanFilter s m)) - q\<bar> \<le> \<bar>p - q\<bar> / 4"
    unfolding eq diff .
  then show ?thesis
    unfolding p_def q_def .
qed

lemma constant_cov_bound:
  "\<bar>P (feed createKalmanFilter (replicate n m)) - (sqrt 5 - 1) / 20\<bar>
     \<le> (1/4) ^ n * \<bar>1 - (sqrt 5 - 1) / 20\<bar>"
proof (induction n)
  case 0
  then show ?case by (simp add: createKalmanFilter_fields)
next
  case (Suc n)
  let ?s = "feed createKalmanFilter (replicate n m)"
  have "\<bar>P (feed createKalmanFilter (replicate (Suc n) m)) - (sqrt 5 - 1) / 20\<bar>
      \<le> \<bar>P ?s - (sqrt 5 - 1) / 20\<bar> / 4"
    unfolding feed_replicate_Suc by (rule step_cov_contract [OF feed_new_inv])
  also have "\<dots> \<le> ((1/4) ^ n * \<bar>1 - (sqrt 5 - 1) / 20\<bar>) / 4"
    using Suc.IH by simp
  finally show ?case by simp
qed

lemma constant_cov_limit:
  "(\<lambda>n. P (feed createKalmanFilter (replicate n m))) \<longlonglongrightarrow> (sqrt 5 - 1) / 20"
proof -
  have pow: "(\<lambda>n. (1/4 :: real) ^ n) \<longlonglongrightarrow> 0"
    by (rule LIMSEQ_realpow_zero) simp_all
  have "(\<lambda>n. P (feed createKalmanFilter (replicate n m)) - (sqrt 5 - 1) / 20) \<longlonglongrightarrow> 0"
  proof (rule tendsto_0_le [OF pow])
    show "\<forall>\<^sub>F n in sequentially.
        norm (P (feed createKalmanFilter (replicate n m)) - (sqrt 5 - 1) / 20)
          \<le> norm ((1/4 :: real) ^ n) * \<bar>1 - (sqrt 5 - 1) / 20\<bar>"
      using constant_cov_bound [of _ m] by (intro always_eventually allI) simp
  qed
  then show ?thesis by (simp add: LIM_zero_iff)
qed

lemma constant_output_step:
  "\<bar>fst (kalmanFilter (feed createKalmanFilter ms) m) - m\<bar> \<le> \<bar>X (feed createKalmanFilter ms) - m\<bar>"
proof -
  have "\<bar>X (snd (kalmanFilter (feed createKalmanFilter ms) m)) - m\<bar>
      \<le> \<bar>X (feed createKalmanFilter ms) - m\<bar> / 2"
    by (rule step_error [OF feed_new_inv])
  also have "\<dots> \<le> \<bar>X (feed createKalmanFilter ms) - m\<bar>" by simp
  finally show ?thesis by (simp add: kalmanFilter_value)
qed

text \<open>
  C5, as the code has it. When one measurement \<open>m\<close> is fed again and again to a new
  filter, the distance of the returned value from \<open>m\<close> never increases, from the initial
  estimate on, and the returned values converge to \<open>m\<close>; the covariance is at least 0.05
  after every call and converges to \<open>(sqrt 5 - 1) / 20\<close>, which is positive.
\<close>

theorem constant_input_convergence:
  "\<bar>fst (kalmanFilter createKalmanFilter m) - m\<bar> \<le> \<bar>X createKalmanFilter - m\<bar> \<and>
   (\<forall>n. \<bar>fst (kalmanFilter (feed createKalmanFilter (replicate (Suc n) m)) m) - m\<bar>
         \<le> \<bar>fst (kalmanFilter (feed createKalmanFilter (replicate n m)) m) - m\<bar>) \<and>
   (\<lambda>n. fst (kalmanFilter (feed createKalmanFilter (replicate n m)) m)) \<longlonglongrightarrow> m \<and>
   (\<forall>n. 1/20 \<le> P (feed createKalmanFilter (replicate (Suc n) m))) \<and>
   (\<lambda>n. P (feed createKalmanFilter (replicate n m))) \<longlonglongrightarrow> (sqrt 5 - 1) / 20 \<and>
   0 < (sqrt 5 - 1) / 20"
proof -
  have first: "\<bar>fst (kalmanFilter createKalmanFilter m) - m\<bar> \<le> \<bar>X createKalmanFilter - m\<bar>"
    using constant_output_step [of "[]" m] by simp
  have mono: "\<bar>fst (kalmanFilter (feed createKalmanFilter (replicate (Suc n) m)) m) - m\<bar>
         \<le> \<bar>fst (kalmanFilter (feed createKalmanFilter (replicate n m)) m) - m\<bar>" for n
    using constant_output_step [of "replicate (Suc n) m" m]
    by (simp only: feed_replicate_Suc kalmanFilter_value)
  have "(\<lambda>n. X (feed createKalmanFilter (replicate (Suc n) m))) \<longlonglongrightarrow> m"
    by (rule LIMSEQ_Suc [OF constant_estimate_limit])
  then have lim: "(\<lambda>n. fst (kalmanFilter (feed createKalmanFilter (replicate n m)) m)) \<longlonglongrightarrow> m"
    by (simp only: feed_replicate_Suc kalmanFilter_value)
  have low: "1/20 \<le> P (feed createKalmanFilter (replicate (Suc n) m))" for n
    unfolding feed_replicate_Suc by (rule step_cov(1) [OF feed_new_inv])
  have "0 < (sqrt 5 - 1) / 20" by (rule fixed_point(1)) simp
  with first mono lim low constant_cov_limit [of m] show ?thesis by blast
qed

theorem constant_input_convergence_witness:
  "fst (kalmanFilter (feed createKalmanFilter (replicate 0 36)) 36) = 33 \<and>
   fst (kalmanFilter (feed createKalmanFilter (replicate (Suc 0) 36)) 36) = 1224 / 35 \<and>
   \<bar>fst (kalmanFilter (feed createKalmanFilter (replicate (Suc 0) 36)) 36) - 36\<bar>
      \<le> \<bar>fst (kalmanFilter (feed createKalmanFilter (replicate 0 36)) 36) - 36\<bar> \<and>
   P (feed createKalmanFilter (replicate (Suc 0) 36)) = 11 / 120 \<and>
   1/20 \<le> P (feed createKalmanFilter (replicate (Suc 0) 36))"
proof -
  have "fst (kalmanFilter (feed createKalmanFilter (replicate 0 36)) 36) = 33"
    and "fst (kalmanFilter (feed createKalmanFilter (replicate (Suc 0) 36)) 36) = 1224 / 35"
    and "P (feed createKalmanFilter (replicate (Suc 0) 36)) = 11 / 120"
    by (simp_all add: kalmanFilter_value kalmanFilter_state createKalmanFilter_def)
  then show ?thesis
    using constant_input_convergence [of 36] by blast
qed

text \<open>The claim as stated fails: the covariance does not converge to 0.\<close>

theorem constant_input_convergence_counterexample:
  "\<not> (\<lambda>n. P (feed createKalmanFilter (replicate n 36))) \<longlonglongrightarrow> 0"
proof
  assume "(\<lambda>n. P (feed createKalmanFilter (replicate n 36))) \<longlonglongrightarrow> 0"
  then have "(0::real) = (sqrt 5 - 1) / 20"
    by (rule LIMSEQ_unique) (rule constant_cov_limit)
  moreover have "(0::real) < (sqrt 5 - 1) / 20" by (rule fixed_point(1)) simp
  ultimately show False by simp
qed

subsection \<open>JavaScript numbers\<close>

text \<open>The overflow threshold is above \<open>2\<^sup>1\<^sup>0\<^sup>2\<^sup>3\<close>; results below it in magnitude are exact.\<close>

lemma overflow_threshold_big: "2 ^ 1023 < overflow_threshold"
proof -
  have "(2::real) ^ 970 < 2 ^ 1023" by (rule power_strict_increasing) simp_all
  moreover have "(2::real) ^ 1024 = 2 ^ 1023 + 2 ^ 1023" by simp
  ultimately show ?thesis by (simp add: overflow_threshold_def)
qed

lemma overflow_threshold_pos: "10 < overflow_threshold"
proof -
  have "(2::real) ^ 4 \<le> 2 ^ 1023" by (rule power_increasing) simp_all
  then show ?thesis using overflow_threshold_big by simp
qed

lemma overflow_Finite:
  assumes "- overflow_threshold < x" "x < overflow_threshold"
  shows "overflow x = Finite x"
  using assms by (simp add: overflow_def)

lemma overflow_unit:
  assumes "- 2 \<le> x" "x \<le> 2"
  shows "overflow x = Finite x"
  using assms overflow_threshold_pos by (intro overflow_Finite) simp_all

text \<open>
  On a finite speed the conversion on JavaScript numbers is the conversion on the reals,
  unless the product overflows.
\<close>

lemma js_convertToKmh_Finite:
  "js_convertToKmh (Finite v) =
     (if overflow_threshold \<le> v * 3.6 then Infinity else Finite (convertToKmh v))"
  using overflow_threshold_pos
  by (simp add: js_convertToKmh_def convertToKmh_def overflow_def max_def)

text \<open>
  On a finite state with the noise constants 0.1, a covariance between 0 and 1 and an
  estimate and a measurement in \<open>[0, b)\<close> below the overflow threshold, no operation of
  the filter overflows: the filter on JavaScript numbers is the filter on the reals, and
  the new estimate is in \<open>[0, b)\<close> again.
\<close>

lemma js_kalmanFilter_finite:
  assumes "0 \<le> P s" "P s \<le> 1" "R s = 1/10" "Q s = 1/10" "0 \<le> X s" "X s < b" "0 \<le> m" "m < b"
    "b \<le> overflow_threshold"
  shows "js_kalmanFilter (finite_state s) (Finite m) =
      (Finite (fst (kalmanFilter s m)), finite_state (snd (kalmanFilter s m)))"
    and "0 \<le> X (snd (kalmanFilter s m))" and "X (snd (kalmanFilter s m)) < b"
proof -
  define p where "p = P s + 1/10"
  define g where "g = p / (p + 1/10)"
  define d where "d = m - X s"
  define x where "x = X s + g * d"
  have p: "1/10 \<le> p" "p \<le> 11/10" using assms(1,2) by (simp_all add: p_def)
  have g: "1/2 \<le> g" "g < 1" using p by (simp_all add: g_def field_simps)
  have x_eq: "x = (1 - g) * X s + g * m" by (simp add: x_def d_def algebra_simps)
  have x0: "0 \<le> x" unfolding x_eq using g assms(5,7) by simp
  have "(1 - g) * X s + g * m < (1 - g) * b + g * b"
    using g assms(6,8) by (intro add_le_less_mono mult_left_mono mult_strict_left_mono) simp_all
  then have xb: "x < b" unfolding x_eq by (simp add: algebra_simps)
  have real: "snd (kalmanFilter s m) = s\<lparr>P := (1 - g) * p, X := x, K := g\<rparr>"
    by (simp add: kalmanFilter_state assms(3,4) p_def g_def x_def d_def)
  show "0 \<le> X (snd (kalmanFilter s m))" "X (snd (kalmanFilter s m)) < b"
    using x0 xb by (simp_all add: real)
  have o1: "overflow (P s + 1/10) = Finite p"
    unfolding p_def [symmetric] using p by (intro overflow_unit) simp_all
  have o2: "overflow (p + 1/10) = Finite (p + 1/10)"
    using p by (intro overflow_unit) simp_all
  have o3: "overflow (p / (p + 1/10)) = Finite g"
    unfolding g_def [symmetric] using g by (intro overflow_unit) simp_all
  have d: "- b < d" "d < b" using assms(5-8) by (simp_all add: d_def)
  have o4: "overflow (m - X s) = Finite d"
    using d assms(9) by (simp add: d_def overflow_Finite)
  have gd: "\<bar>g * d\<bar> \<le> \<bar>d\<bar>" using g by (simp add: abs_mult mult_left_le_one_le)
  have "- overflow_threshold < g * d" "g * d < overflow_threshold"
    using gd d assms(9) by linarith+
  then have o5: "overflow (g * d) = Finite (g * d)"
    by (rule overflow_Finite)
  have o6: "overflow (X s + g * d) = Finite x"
    unfolding x_def [symmetric] using x0 xb assms(9) overflow_threshold_pos
    by (intro overflow_Finite) simp_all
  have o7: "overflow (1 - g) = Finite (1 - g)"
    using g by (intro overflow_unit) simp_all
  have "0 \<le> (1 - g) * p" "(1 - g) * p \<le> 1 * (11/10)"
    using g p by (simp, intro mult_mono) simp_all
  then have o8: "overflow ((1 - g) * p) = Finite ((1 - g) * p)"
    by (intro overflow_unit) simp_all
  have nz: "p + 1/10 \<noteq> 0" using p by simp
  show "js_kalmanFilter (finite_state s) (Finite m) =
      (Finite (fst (kalmanFilter s m)), finite_state (snd (kalmanFilter s m)))"
    using nz
    by (simp add: kalmanFilter_value real js_kalmanFilter_def finite_state_def js_sub_def Let_def
        assms(3,4) o1 o2 o3 o4 o5 o6 o7 o8 del: divide_eq_0_iff)
qed

subsection \<open>One-decimal formatting\<close>

text \<open>
  Reading back what \<^verbatim>\<open>toFixed(1)\<close> wrote for a finite number gives the nearest multiple of
  one tenth: it moves a non-negative number by at most 0.05, and never below a multiple of
  one tenth that the number has reached.
\<close>

lemma toFixed1_small:
  assumes "0 \<le> x" "x < 10 ^ 21"
  shows "parseFloat (toFixed1 (Finite x)) = Finite (real_of_int \<lfloor>x * 10 + 1 / 2\<rfloor> / 10)"
proof -
  have "0 \<le> \<lfloor>x * 10 + 1 / 2\<rfloor>" using assms(1) by simp
  then show ?thesis using assms by (simp add: Let_def)
qed

lemma toFixed1_Finite: "\<exists>y. parseFloat (toFixed1 (Finite x)) = Finite y"
  by (simp add: Let_def)

lemma toFixed1_near:
  assumes "0 \<le> x"
  shows "\<exists>y. parseFloat (toFixed1 (Finite x)) = Finite y \<and> \<bar>y - x\<bar> \<le> 1 / 20"
proof (cases "x < 10 ^ 21")
  case True
  define n where "n = \<lfloor>x * 10 + 1 / 2\<rfloor>"
  have a: "real_of_int n \<le> x * 10 + 1 / 2" unfolding n_def by (rule of_int_floor_le)
  have b: "x * 10 + 1 / 2 < real_of_int n + 1" unfolding n_def by linarith
  have eq: "parseFloat (toFixed1 (Finite x)) = Finite (real_of_int n / 10)"
    unfolding n_def by (rule toFixed1_small [OF assms True])
  from a b have "\<bar>real_of_int n / 10 - x\<bar> \<le> 1 / 20" by linarith
  with eq show ?thesis by blast
next
  case False
  then show ?thesis using assms by (simp add: Let_def)
qed

lemma round1_ge:
  assumes "real_of_int k \<le> 10 * x" "0 \<le> x"
  shows "js_ge (parseFloat (toFixed1 (Finite x))) (Finite (real_of_int k / 10))"
proof (cases "x < 10 ^ 21")
  case True
  have "real_of_int k \<le> x * 10 + 1 / 2" using assms(1) by simp
  then have "k \<le> \<lfloor>x * 10 + 1 / 2\<rfloor>" by (simp add: le_floor_iff)
  then have "real_of_int k \<le> real_of_int \<lfloor>x * 10 + 1 / 2\<rfloor>" by simp
  then show ?thesis unfolding toFixed1_small [OF assms(2) True] by simp
next
  case False
  then show ?thesis using assms by (simp add: Let_def)
qed

subsection \<open>The position callback\<close>

text \<open>What one call of the callback leaves in each cell of the state.\<close>

lemma onLocation_speedData:
  "speedData (snd (onLocation st loc now)) =
     \<lparr>currentSpeed = parseFloat (toFixed1
        (js_add (fst (js_kalmanFilter (kalman st)
            (js_convertToKmh (case speed loc of None \<Rightarrow> Finite 0 | Some v \<Rightarrow> Finite v))))
          (Finite CALIBRATION))),
      accuracy = (case coords_accuracy loc of None \<Rightarrow> 0 | Some a \<Rightarrow> a),
      timestamp = location_timestamp loc\<rparr>"
  by (simp add: onLocation_def Let_def)

lemma onLocation_kalman:
  "kalman (snd (onLocation st loc now)) =
     snd (js_kalmanFilter (kalman st)
       (js_convertToKmh (case speed loc of None \<Rightarrow> Finite 0 | Some v \<Rightarrow> Finite v)))"
  by (simp add: onLocation_def Let_def)

lemma onLocation_limit: "speedLimitRef (snd (onLocation st loc now)) = speedLimitRef st"
  by (simp add: onLocation_def Let_def)

lemma onLocation_alert:
  "warnings (snd (onLocation st loc now)) =
     (if \<not> toISOString_throws (location_timestamp loc) \<and>
         js_ge (currentSpeed (speedData (snd (onLocation st loc now)))) (speedLimitRef st) \<and>
         now - lastSpeedWarning st > 5000
      then now # warnings st else warnings st)"
  "lastSpeedWarning (snd (onLocation st loc now)) =
     (if \<not> toISOString_throws (location_timestamp loc) \<and>
         js_ge (currentSpeed (speedData (snd (onLocation st loc now)))) (speedLimitRef st) \<and>
         now - lastSpeedWarning st > 5000
      then now else lastSpeedWarning st)"
  by (simp_all add: onLocation_def Let_def)

lemma onLocation_outcome:
  "fst (onLocation st loc now) = (if toISOString_throws (location_timestamp loc) then RangeError else Completed)"
  by (simp add: onLocation_def Let_def)

lemma initial_fields:
  "kalman (initialAppState t0) = finite_state createKalmanFilter"
  "speedLimitRef (initialAppState t0) = Finite 60"
  "lastSpeedWarning (initialAppState t0) = 0"
  "warnings (initialAppState t0) = []"
  by (simp_all add: initialAppState_def INITIAL_SPEED_def SPEED_LIMITS_def
      js_createKalmanFilter_def finite_state_def createKalmanFilter_def)

lemma published_length: "length (published st samples) = length samples"
  by (induction samples arbitrary: st) (auto simp add: Let_def)

text \<open>
  A position whose speed is in range, delivered to such a filter state: the callback
  computes with the filter and the conversion on the reals.
\<close>

lemma onLocation_exact:
  assumes "kalman st = finite_state s" "R s = 1/10" "Q s = 1/10" "0 \<le> P s" "P s \<le> 1"
    "0 \<le> X s" "X s + 1 < overflow_threshold"
    "v * 3.6 + 1 < overflow_threshold" "speed loc = Some v \<or> speed loc = None \<and> v = 0"
  shows "kalman (snd (onLocation st loc now)) = finite_state (snd (kalmanFilter s (convertToKmh v)))"
    and "currentSpeed (speedData (snd (onLocation st loc now))) =
      parseFloat (toFixed1 (Finite (fst (kalmanFilter s (convertToKmh v)) + CALIBRATION)))"
    and "0 \<le> X (snd (kalmanFilter s (convertToKmh v)))"
    and "X (snd (kalmanFilter s (convertToKmh v))) + 1 < overflow_threshold"
proof -
  define b where "b = overflow_threshold - 1"
  define m where "m = convertToKmh v"
  have raw: "(case speed loc of None \<Rightarrow> Finite 0 | Some v \<Rightarrow> Finite v) = Finite v"
    using assms(9) by auto
  have conv: "js_convertToKmh (Finite v) = Finite m"
    using assms(8) by (simp add: js_convertToKmh_Finite m_def)
  have m: "0 \<le> m" "m < b"
    using assms(8) overflow_threshold_pos by (simp_all add: m_def b_def convertToKmh_def)
  have xb: "X s < b" using assms(7) by (simp add: b_def)
  have bb: "b \<le> overflow_threshold" by (simp add: b_def)
  note ref = js_kalmanFilter_finite [OF assms(4,5,2,3,6) xb m bb]
  show x0: "0 \<le> X (snd (kalmanFilter s (convertToKmh v)))"
    and x1: "X (snd (kalmanFilter s (convertToKmh v))) + 1 < overflow_threshold"
    using ref(2,3) by (simp_all add: m_def b_def)
  show "kalman (snd (onLocation st loc now)) = finite_state (snd (kalmanFilter s (convertToKmh v)))"
    by (simp add: onLocation_kalman raw conv assms(1) ref(1) m_def [symmetric])
  have "overflow (fst (kalmanFilter s m) + 1) = Finite (fst (kalmanFilter s m) + 1)"
    using x0 x1 overflow_threshold_pos
    by (intro overflow_Finite) (simp_all add: kalmanFilter_value m_def)
  then show "currentSpeed (speedData (snd (onLocation st loc now))) =
      parseFloat (toFixed1 (Finite (fst (kalmanFilter s (convertToKmh v)) + CALIBRATION)))"
    by (simp add: onLocation_speedData raw conv assms(1) ref(1) m_def [symmetric] CALIBRATION_def)
qed

text \<open>
  From the start of tracking, positions with speeds in range keep the filter state finite
  and publish finite speeds.
\<close>

lemma finite_filter_initial: "finite_filter (kalman (initialAppState t0))"
  unfolding finite_filter_def initial_fields
  using overflow_threshold_pos
  by (intro exI [of _ createKalmanFilter]) (simp add: createKalmanFilter_fields)

lemma onLocation_in_range:
  assumes "finite_filter (kalman st)" "speed_in_range loc"
  shows "finite_filter (kalman (snd (onLocation st loc now)))"
    and "\<exists>y. currentSpeed (speedData (snd (onLocation st loc now))) = Finite y"
proof -
  from assms(1) obtain s where s: "kalman st = finite_state s" "R s = 1/10" "Q s = 1/10"
    "0 \<le> P s" "P s \<le> 1" "0 \<le> X s" "X s + 1 < overflow_threshold"
    unfolding finite_filter_def by blast
  define v where "v = (case speed loc of None \<Rightarrow> 0 | Some v \<Rightarrow> v)"
  have v: "v * 3.6 + 1 < overflow_threshold" "speed loc = Some v \<or> speed loc = None \<and> v = 0"
    using assms(2) overflow_threshold_pos
    by (auto simp add: speed_in_range_def v_def split: option.splits)
  note ex = onLocation_exact [OF s v]
  let ?s' = "snd (kalmanFilter s (convertToKmh v))"
  have "0 \<le> P ?s'" "P ?s' \<le> 1"
    using step_cov [OF s(4,2,3), of "convertToKmh v"] by simp_all
  then show "finite_filter (kalman (snd (onLocation st loc now)))"
    unfolding finite_filter_def using ex(1,3,4) s(2,3)
    by (intro exI [of _ ?s']) (simp add: step_fields(1,2))
  show "\<exists>y. currentSpeed (speedData (snd (onLocation st loc now))) = Finite y"
    unfolding ex(2) by (rule toFixed1_Finite)
qed

lemma run_in_range:
  assumes "finite_filter (kalman st)" "\<forall>(loc, now) \<in> set samples. speed_in_range loc"
  shows "finite_filter (kalman (run st samples))"
  using assms
proof (induction samples arbitrary: st)
  case Nil
  then show ?case by simp
next
  case (Cons a samples)
  obtain loc now where a: "a = (loc, now)" by (cases a)
  from Cons.prems(2) have "speed_in_range loc" and rest: "\<forall>(loc, now) \<in> set samples. speed_in_range loc"
    by (simp_all add: a)
  from onLocation_in_range(1) [OF Cons.prems(1) this(1)] rest show ?case
    unfolding a run.simps by (rule Cons.IH)
qed

text \<open>Speeds up to a million km/h are far from the threshold.\<close>

lemma overflow_small:
  assumes "\<bar>x\<bar> \<le> 10 ^ 6"
  shows "overflow x = Finite x"
proof -
  have "(10::real) ^ 6 < 2 ^ 20" by simp
  also have "(2::real) ^ 20 \<le> 2 ^ 1023" by (rule power_increasing) simp_all
  finally have "\<bar>x\<bar> < overflow_threshold" using assms overflow_threshold_big by simp
  then show ?thesis by (intro overflow_Finite) (simp_all add: abs_less_iff)
qed

lemma small_in_range:
  assumes "x \<le> 10 ^ 6"
  shows "x + 1 < overflow_threshold"
proof -
  have "(10::real) ^ 6 + 1 < 2 ^ 21" by simp
  also have "(2::real) ^ 21 \<le> 2 ^ 1023" by (rule power_increasing) simp_all
  finally show ?thesis using assms overflow_threshold_big by simp
qed

lemma onLocation_new_filter:
  assumes "speed a = Some v" "v * 3.6 \<le> 10 ^ 6"
  shows "kalman (snd (onLocation (initialAppState t0) a t)) =
      finite_state (snd (kalmanFilter createKalmanFilter (convertToKmh v)))"
    and "currentSpeed (speedData (snd (onLocation (initialAppState t0) a t))) =
      parseFloat (toFixed1 (Finite (fst (kalmanFilter createKalmanFilter (convertToKmh v)) + CALIBRATION)))"
proof -
  have r: "v * 3.6 + 1 < overflow_threshold" by (rule small_in_range [OF assms(2)])
  have x: "X createKalmanFilter + 1 < overflow_threshold"
    using small_in_range [of 0] by (simp add: createKalmanFilter_fields)
  show "kalman (snd (onLocation (initialAppState t0) a t)) =
      finite_state (snd (kalmanFilter createKalmanFilter (convertToKmh v)))"
    and "currentSpeed (speedData (snd (onLocation (initialAppState t0) a t))) =
      parseFloat (toFixed1 (Finite (fst (kalmanFilter createKalmanFilter (convertToKmh v)) + CALIBRATION)))"
    using onLocation_exact(1,2) [OF initial_fields(1) _ _ _ _ _ x r, of a t0 t] assms(1)
    by (simp_all add: createKalmanFilter_fields)
qed

text \<open>
  C8. The conversion maps a raw speed \<open>s\<close> to \<open>max 0 s * 3.6\<close>: the source's
  \<open>max 0 (s * 3.6)\<close> is the same number, it is never negative, and it is 0 for a negative
  raw speed. On JavaScript numbers the conversion of a finite speed is that number, or
  \<^verbatim>\<open>Infinity\<close> when the product overflows: in both cases at least 0.
\<close>

theorem convertToKmh_clamps_then_scales:
  "convertToKmh s = spec_convertToKmh s \<and> spec_convertToKmh s = max 0 s * 3.6 \<and>
   0 \<le> convertToKmh s \<and> (s < 0 \<longrightarrow> convertToKmh s = 0) \<and>
   js_convertToKmh (Finite s) =
     (if overflow_threshold \<le> s * 3.6 then Infinity else Finite (convertToKmh s)) \<and>
   js_ge (js_convertToKmh (Finite s)) (Finite 0)"
proof -
  have exact: "convertToKmh s = spec_convertToKmh s \<and> spec_convertToKmh s = max 0 s * 3.6 \<and>
      0 \<le> convertToKmh s \<and> (s < 0 \<longrightarrow> convertToKmh s = 0)"
    by (simp add: convertToKmh_def spec_convertToKmh_def max_def)
  have js: "js_convertToKmh (Finite s) =
      (if overflow_threshold \<le> s * 3.6 then Infinity else Finite (convertToKmh s))"
    by (rule js_convertToKmh_Finite)
  have "0 \<le> convertToKmh s" using exact by blast
  then have "js_ge (js_convertToKmh (Finite s)) (Finite 0)"
    unfolding js by simp
  with exact js show ?thesis by blast
qed

theorem convertToKmh_clamps_then_scales_witness:
  "convertToKmh (-5) = 0 \<and> convertToKmh 30 = 108 \<and>
   js_convertToKmh (Finite (-5)) = Finite 0 \<and> js_convertToKmh (Finite 30) = Finite 108"
  using convertToKmh_clamps_then_scales [of "-5"] convertToKmh_clamps_then_scales [of 30]
    small_in_range [of 108] small_in_range [of 0]
  by (simp add: spec_convertToKmh_def)

text \<open>
  A speed whose product with 3.6 overflows, delivered to a finite filter state: the
  measurement is \<^verbatim>\<open>Infinity\<close>, and so are the estimate and the published speed.
\<close>

lemma js_kalmanFilter_Infinity:
  assumes "0 \<le> P s" "P s \<le> 1" "R s = 1/10" "Q s = 1/10"
  shows "fst (js_kalmanFilter (finite_state s) Infinity) = Infinity"
proof -
  define p where "p = P s + 1/10"
  define g where "g = p / (p + 1/10)"
  have p: "1/10 \<le> p" "p \<le> 11/10" using assms(1,2) by (simp_all add: p_def)
  have g: "1/2 \<le> g" "g < 1" using p by (simp_all add: g_def field_simps)
  have o1: "overflow (P s + 1/10) = Finite p"
    unfolding p_def [symmetric] using p by (intro overflow_unit) simp_all
  have o2: "overflow (p + 1/10) = Finite (p + 1/10)"
    using p by (intro overflow_unit) simp_all
  have o3: "overflow (p / (p + 1/10)) = Finite g"
    unfolding g_def [symmetric] using g by (intro overflow_unit) simp_all
  have nz: "p + 1/10 \<noteq> 0" using p by simp
  show ?thesis
    using nz g
    by (simp add: js_kalmanFilter_def finite_state_def js_sub_def Let_def assms(3,4) o1 o2 o3
        del: divide_eq_0_iff)
qed

lemma onLocation_overflow:
  assumes "finite_filter (kalman st)" "speed loc = Some v" "overflow_threshold \<le> v * 3.6"
  shows "currentSpeed (speedData (snd (onLocation st loc now))) = Infinity"
proof -
  from assms(1) obtain s where s: "kalman st = finite_state s" "R s = 1/10" "Q s = 1/10"
    "0 \<le> P s" "P s \<le> 1"
    unfolding finite_filter_def by blast
  show ?thesis
    using assms(3)
    by (simp add: onLocation_speedData assms(2) js_convertToKmh_Finite s(1)
        js_kalmanFilter_Infinity [OF s(4,5,2,3)])
qed

lemma overflowing_speeds:
  "overflow_threshold \<le> 5 * 10 ^ 307 * 3.6" "overflow_threshold \<le> 2 ^ 1023 * 3.6"
proof -
  have "overflow_threshold \<le> 2 ^ 1024" by (simp add: overflow_threshold_def)
  also have "(2::real) ^ 1024 \<le> 5 * 10 ^ 307 * 3.6" by simp
  finally show "overflow_threshold \<le> 5 * 10 ^ 307 * 3.6" .
  have "(2::real) ^ 1024 = 2 ^ 1023 * 2" by simp
  also have "\<dots> \<le> 2 ^ 1023 * 3.6" by (intro mult_left_mono) simp_all
  finally show "overflow_threshold \<le> 2 ^ 1023 * 3.6" by (simp add: overflow_threshold_def)
qed

subsection \<open>Alerts\<close>

text \<open>
  The callback keeps the alert log spaced: it appends a reading only when that reading is
  more than 5000 ms after \<^verbatim>\<open>lastSpeedWarning\<close>, which is the head of the log.
\<close>

lemma spaced_Cons: "spaced (a # ws) = ((case ws of [] \<Rightarrow> True | b # _ \<Rightarrow> a - b > 5000) \<and> spaced ws)"
  by (cases ws) simp_all

lemma onLocation_spaced:
  assumes "spaced (warnings st)"
    and "\<forall>w ws. warnings st = w # ws \<longrightarrow> lastSpeedWarning st = w"
  shows "spaced (warnings (snd (onLocation st loc now)))"
    and "\<forall>w ws. warnings (snd (onLocation st loc now)) = w # ws \<longrightarrow> lastSpeedWarning (snd (onLocation st loc now)) = w"
  using assms by (auto simp add: onLocation_alert spaced_Cons split: list.splits)

lemma run_spaced:
  assumes "spaced (warnings st)"
    and "\<forall>w ws. warnings st = w # ws \<longrightarrow> lastSpeedWarning st = w"
  shows "spaced (warnings (run st samples))"
  using assms
proof (induction samples arbitrary: st)
  case Nil
  then show ?case by simp
next
  case (Cons a samples)
  obtain loc now where a: "a = (loc, now)" by (cases a)
  show ?case
    unfolding a run.simps
    by (rule Cons.IH) (use Cons.prems onLocation_spaced [of st loc now] in blast)+
qed

text \<open>The first two positions of the scenario of C3, at 30 m/s from a new filter.\<close>

lemma first_sample_30:
  assumes "speed a = Some 30"
  shows "kalman (snd (onLocation (initialAppState t0) a t)) =
      finite_state \<lparr>R = 1/10, Q = 1/10, P = 11/120, X = 99, K = 11/12\<rparr>"
    and "currentSpeed (speedData (snd (onLocation (initialAppState t0) a t))) = Finite 100"
  using onLocation_new_filter [OF assms, of t0 t]
  by (simp_all add: convertToKmh_def
      kalmanFilter_state kalmanFilter_value createKalmanFilter_def CALIBRATION_def)

lemma second_sample_30:
  assumes "speed b = Some 30"
    "kalman st = finite_state \<lparr>R = 1/10, Q = 1/10, P = 11/120, X = 99, K = 11/12\<rparr>"
  shows "currentSpeed (speedData (snd (onLocation st b t))) = Finite (1059 / 10)"
proof -
  have r: "30 * 3.6 + 1 < overflow_threshold" using small_in_range [of "30 * 3.6"] by simp
  have x: "X \<lparr>R = 1/10, Q = 1/10, P = 11/120, X = 99, K = 11/12 :: real\<rparr> + 1 < overflow_threshold"
    using small_in_range [of 99] by simp
  show ?thesis
    using onLocation_exact(2) [OF assms(2) _ _ _ _ _ x r, of b t] assms(1)
    by (simp add: convertToKmh_def kalmanFilter_state kalmanFilter_value CALIBRATION_def)
qed

lemma scenario_one_alert:
  assumes "5000 < t" "speed a = Some 30" "speed b = Some 30"
    "\<not> toISOString_throws (location_timestamp a)" "\<not> toISOString_throws (location_timestamp b)"
  shows "warnings (run (initialAppState t0) [(a, t), (b, t + 1000)]) = [t]"
proof -
  let ?st1 = "snd (onLocation (initialAppState t0) a t)"
  have w1: "warnings ?st1 = [t]" and l1: "lastSpeedWarning ?st1 = t"
    using assms(1,4) first_sample_30(2) [OF assms(2), of t0 t]
    by (simp_all add: onLocation_alert initial_fields)
  have "warnings (snd (onLocation ?st1 b (t + 1000))) = [t]"
    by (simp add: onLocation_alert [of ?st1] l1 w1)
  then show ?thesis by simp
qed

text \<open>
  C3, as the code has it. For a position whose timestamp is a time value, the callback
  plays the warning exactly when the published speed, which is the filtered and calibrated
  speed rounded to one decimal, is at least the limit under \<^verbatim>\<open>>=\<close>, and the clock is more
  than 5000 ms past the last warning; it then records the clock reading. Against the limit
  \<^verbatim>\<open>Infinity\<close> only a published speed that is itself \<^verbatim>\<open>Infinity\<close> is at least the limit. From
  the start of tracking, consecutive warnings are more than 5000 ms apart. With 30 m/s,
  limit 60 and two positions one second apart, the first after clock reading 5000, exactly
  one warning is played.
\<close>

theorem alert_rule:
  "(\<not> toISOString_throws (location_timestamp loc) \<longrightarrow>
      (let compared = parseFloat (toFixed1 (js_add (fst (js_kalmanFilter (kalman st)
              (js_convertToKmh (case speed loc of None \<Rightarrow> Finite 0 | Some v \<Rightarrow> Finite v))))
              (Finite CALIBRATION)));
           fires = (js_ge compared (speedLimitRef st) \<and> now - lastSpeedWarning st > 5000);
           st' = snd (onLocation st loc now)
       in warnings st' = (if fires then now # warnings st else warnings st) \<and>
          lastSpeedWarning st' = (if fires then now else lastSpeedWarning st))) \<and>
   js_ge y Infinity = (y = Infinity) \<and>
   spaced (warnings (run (initialAppState t0) samples)) \<and>
   (5000 < t \<and> speed a = Some 30 \<and> speed b = Some 30 \<and>
    \<not> toISOString_throws (location_timestamp a) \<and>
    \<not> toISOString_throws (location_timestamp b) \<longrightarrow>
      speedLimitRef (initialAppState t0) = Finite 60 \<and>
      warnings (run (initialAppState t0) [(a, t), (b, t + 1000)]) = [t])"
proof -
  have "spaced (warnings (run (initialAppState t0) samples))"
    by (rule run_spaced) (simp_all add: initial_fields)
  moreover have "js_ge y Infinity = (y = Infinity)"
    by (cases y) simp_all
  ultimately show ?thesis
    using scenario_one_alert [of t a b t0]
    by (simp add: Let_def onLocation_alert onLocation_speedData initial_fields)
qed

theorem alert_rule_witness:
  "warnings (snd (onLocation (initialAppState 1700000000000)
      \<lparr>speed = Some 30, coords_accuracy = Some 5, location_timestamp = Some 1700000001000\<rparr>
      1700000001200)) = [1700000001200] \<and>
   warnings (run (initialAppState 1700000000000)
     [(\<lparr>speed = Some 30, coords_accuracy = Some 5, location_timestamp = Some 1700000001000\<rparr>,
       1700000001200),
      (\<lparr>speed = Some 30, coords_accuracy = Some 5, location_timestamp = Some 1700000002000\<rparr>,
       1700000001200 + 1000)]) = [1700000001200]"
  using alert_rule [of "\<lparr>speed = Some 30, coords_accuracy = Some 5, location_timestamp = Some 1700000001000\<rparr>"
      "initialAppState 1700000000000" 1700000001200 "Finite 0" 1700000000000 "[]" 1700000001200
      "\<lparr>speed = Some 30, coords_accuracy = Some 5, location_timestamp = Some 1700000001000\<rparr>"
      "\<lparr>speed = Some 30, coords_accuracy = Some 5, location_timestamp = Some 1700000002000\<rparr>"]
  by (simp add: Let_def toISOString_throws_def initialAppState_def INITIAL_SPEED_def SPEED_LIMITS_def
      js_createKalmanFilter_def js_convertToKmh_def js_kalmanFilter_def js_sub_def
      overflow_small CALIBRATION_def)

text \<open>
  The claim as stated fails three times. At 17.87 m/s the filtered and calibrated speed is
  59.971, below the limit 60, and the warning is played, since 60.0 is compared. A second
  position at 30 m/s exactly 5000 ms after a warning, with the speed above the limit, plays
  no warning. And with the limit \<^verbatim>\<open>Infinity\<close>, the finite speed 5e307 m/s overflows in the
  conversion and the warning is played.
\<close>

theorem alert_rule_counterexample:
  "js_add (fst (js_kalmanFilter js_createKalmanFilter (js_convertToKmh (Finite 17.87))))
      (Finite CALIBRATION) = Finite 59.971 \<and>
   speedLimitRef (initialAppState 1700000000000) = Finite 60 \<and>
   warnings (snd (onLocation (initialAppState 1700000000000)
      \<lparr>speed = Some 17.87, coords_accuracy = Some 5, location_timestamp = Some 1700000001000\<rparr>
      1700000001200)) = [1700000001200] \<and>
   (let st1 = snd (onLocation (initialAppState 1700000000000)
        \<lparr>speed = Some 30, coords_accuracy = Some 5, location_timestamp = Some 1700000001000\<rparr>
        1700000001200)
    in warnings st1 = [1700000001200] \<and>
       lastSpeedWarning st1 = 1700000001200 \<and>
       speedLimitRef st1 = Finite 60 \<and>
       js_ge (js_add (fst (js_kalmanFilter (kalman st1) (js_convertToKmh (Finite 30))))
          (Finite CALIBRATION)) (Finite 60) \<and>
       1700000006200 - lastSpeedWarning st1 \<ge> 5000 \<and>
       warnings (snd (onLocation st1
         \<lparr>speed = Some 30, coords_accuracy = Some 5, location_timestamp = Some 1700000006000\<rparr>
         1700000006200)) = [1700000001200]) \<and>
   speedLimitRef (pressOff (initialAppState 1700000000000)) = Infinity \<and>
   warnings (snd (onLocation (pressOff (initialAppState 1700000000000))
      \<lparr>speed = Some (5 * 10 ^ 307), coords_accuracy = Some 5,
        location_timestamp = Some 1700000001000\<rparr>
      1700000001200)) = [1700000001200]"
proof -
  have off: "finite_filter (kalman (pressOff (initialAppState 1700000000000)))"
    using finite_filter_initial [of 1700000000000] by (simp add: pressOff_def)
  have "currentSpeed (speedData (snd (onLocation (pressOff (initialAppState 1700000000000))
      \<lparr>speed = Some (5 * 10 ^ 307), coords_accuracy = Some 5,
        location_timestamp = Some 1700000001000\<rparr>
      1700000001200))) = Infinity"
    by (rule onLocation_overflow [OF off _ overflowing_speeds(1)]) simp
  then have sentinel: "warnings (snd (onLocation (pressOff (initialAppState 1700000000000))
      \<lparr>speed = Some (5 * 10 ^ 307), coords_accuracy = Some 5,
        location_timestamp = Some 1700000001000\<rparr>
      1700000001200)) = [1700000001200]"
    by (simp add: onLocation_alert pressOff_def toISOString_throws_def initial_fields)
  have rest: "js_add (fst (js_kalmanFilter js_createKalmanFilter (js_convertToKmh (Finite 17.87))))
      (Finite CALIBRATION) = Finite 59.971 \<and>
   speedLimitRef (initialAppState 1700000000000) = Finite 60 \<and>
   warnings (snd (onLocation (initialAppState 1700000000000)
      \<lparr>speed = Some 17.87, coords_accuracy = Some 5, location_timestamp = Some 1700000001000\<rparr>
      1700000001200)) = [1700000001200] \<and>
   (let st1 = snd (onLocation (initialAppState 1700000000000)
        \<lparr>speed = Some 30, coords_accuracy = Some 5, location_timestamp = Some 1700000001000\<rparr>
        1700000001200)
    in warnings st1 = [1700000001200] \<and>
       lastSpeedWarning st1 = 1700000001200 \<and>
       speedLimitRef st1 = Finite 60 \<and>
       js_ge (js_add (fst (js_kalmanFilter (kalman st1) (js_convertToKmh (Finite 30))))
          (Finite CALIBRATION)) (Finite 60) \<and>
       1700000006200 - lastSpeedWarning st1 \<ge> 5000 \<and>
       warnings (snd (onLocation st1
         \<lparr>speed = Some 30, coords_accuracy = Some 5, location_timestamp = Some 1700000006000\<rparr>
         1700000006200)) = [1700000001200])"
    by (simp add: Let_def onLocation_def
      toISOString_throws_def initialAppState_def INITIAL_SPEED_def SPEED_LIMITS_def
      js_createKalmanFilter_def js_convertToKmh_def js_kalmanFilter_def js_sub_def
      overflow_small CALIBRATION_def)
  have "speedLimitRef (pressOff (initialAppState 1700000000000)) = Infinity"
    by (simp add: pressOff_def)
  with rest sentinel show ?thesis by blast
qed

text \<open>
  With the limit \<^verbatim>\<open>Infinity\<close>, a finite filter state and speeds in range, the callback
  changes neither the log nor the limit.
\<close>

lemma run_off:
  assumes "speedLimitRef st = Infinity" "finite_filter (kalman st)"
    "\<forall>(loc, now) \<in> set samples. speed_in_range loc"
  shows "warnings (run st samples) = warnings st \<and>
    lastSpeedWarning (run st samples) = lastSpeedWarning st \<and>
    speedLimitRef (run st samples) = Infinity"
  using assms
proof (induction samples arbitrary: st)
  case Nil
  then show ?case by simp
next
  case (Cons a samples)
  obtain loc now where a: "a = (loc, now)" by (cases a)
  let ?st' = "snd (onLocation st loc now)"
  from Cons.prems(3) have r: "speed_in_range loc" and rest: "\<forall>(loc, now) \<in> set samples. speed_in_range loc"
    by (simp_all add: a)
  from onLocation_in_range(2) [OF Cons.prems(2) r, of now]
  obtain y where y: "currentSpeed (speedData ?st') = Finite y" by blast
  have same: "warnings ?st' = warnings st" "lastSpeedWarning ?st' = lastSpeedWarning st"
    by (simp_all add: onLocation_alert y Cons.prems(1))
  have "speedLimitRef ?st' = Infinity"
    using Cons.prems(1) by (simp add: onLocation_limit)
  from Cons.IH [OF this onLocation_in_range(1) [OF Cons.prems(2) r] rest] show ?case
    by (simp add: a same)
qed

text \<open>
  C4, as the code has it. The OFF tile stores the limit \<^verbatim>\<open>Infinity\<close> and leaves the filter
  alone. While the limit is \<^verbatim>\<open>Infinity\<close>, no stream of positions plays a warning, whatever
  the clock readings, provided that the speeds of the stream and of the positions
  delivered since the start of tracking are in range: their product with 3.6, plus 1, is
  below the overflow threshold.
\<close>

theorem no_alert_when_off:
  "speedLimitRef (pressOff st) = Infinity \<and> warnings (pressOff st) = warnings st \<and>
   kalman (pressOff st) = kalman st \<and>
   ((\<forall>(loc, now) \<in> set earlier. speed_in_range loc) \<and>
    (\<forall>(loc, now) \<in> set samples. speed_in_range loc) \<and>
    kalman st = kalman (run (initialAppState t0) earlier) \<and>
    speedLimitRef st = Infinity \<longrightarrow>
      warnings (run st samples) = warnings st \<and>
      lastSpeedWarning (run st samples) = lastSpeedWarning st \<and>
      speedLimitRef (run st samples) = Infinity)"
proof -
  have "warnings (run st samples) = warnings st \<and>
      lastSpeedWarning (run st samples) = lastSpeedWarning st \<and>
      speedLimitRef (run st samples) = Infinity"
    if e: "\<forall>(loc, now) \<in> set earlier. speed_in_range loc"
      and r: "\<forall>(loc, now) \<in> set samples. speed_in_range loc"
      and k: "kalman st = kalman (run (initialAppState t0) earlier)"
      and l: "speedLimitRef st = Infinity"
  proof -
    have "finite_filter (kalman st)"
      unfolding k by (rule run_in_range [OF finite_filter_initial e])
    with l show ?thesis using r by (rule run_off)
  qed
  then show ?thesis by (simp add: pressOff_def)
qed

theorem no_alert_when_off_witness:
  "speed_in_range \<lparr>speed = Some 30, coords_accuracy = Some 5, location_timestamp = Some 1700000001000\<rparr> \<and>
   speed_in_range \<lparr>speed = Some 60, coords_accuracy = None, location_timestamp = Some 1700000009000\<rparr> \<and>
   warnings (run (pressOff (initialAppState 1700000000000))
     [(\<lparr>speed = Some 30, coords_accuracy = Some 5, location_timestamp = Some 1700000001000\<rparr>,
       1700000001200),
      (\<lparr>speed = Some 60, coords_accuracy = None, location_timestamp = Some 1700000009000\<rparr>,
       1700000009200)]) = []"
proof -
  have r: "speed_in_range \<lparr>speed = Some 30, coords_accuracy = Some 5, location_timestamp = Some 1700000001000\<rparr>"
    "speed_in_range \<lparr>speed = Some 60, coords_accuracy = None, location_timestamp = Some 1700000009000\<rparr>"
    using small_in_range [of "30 * 3.6"] small_in_range [of "60 * 3.6"]
    by (simp_all add: speed_in_range_def)
  then show ?thesis
    using no_alert_when_off [of "pressOff (initialAppState 1700000000000)" "[]"
     "[(\<lparr>speed = Some 30, coords_accuracy = Some 5, location_timestamp = Some 1700000001000\<rparr>,
       1700000001200),
      (\<lparr>speed = Some 60, coords_accuracy = None, location_timestamp = Some 1700000009000\<rparr>,
       1700000009200)]" 1700000000000]
    by (simp add: pressOff_def initial_fields)
qed

text \<open>
  The claim as stated fails for finite speeds that overflow: with the limit \<^verbatim>\<open>Infinity\<close>
  and the speed \<open>2\<^sup>1\<^sup>0\<^sup>2\<^sup>3\<close> m/s the published speed is \<^verbatim>\<open>Infinity\<close> and the warning is
  played.
\<close>

theorem no_alert_when_off_counterexample:
  "speedLimitRef (pressOff (initialAppState 1700000000000)) = Infinity \<and>
   currentSpeed (speedData (snd (onLocation (pressOff (initialAppState 1700000000000))
      \<lparr>speed = Some (2 ^ 1023), coords_accuracy = Some 5,
        location_timestamp = Some 1700000001000\<rparr>
      1700000001200))) = Infinity \<and>
   warnings (snd (onLocation (pressOff (initialAppState 1700000000000))
      \<lparr>speed = Some (2 ^ 1023), coords_accuracy = Some 5,
        location_timestamp = Some 1700000001000\<rparr>
      1700000001200)) = [1700000001200]"
proof -
  have off: "finite_filter (kalman (pressOff (initialAppState 1700000000000)))"
    using finite_filter_initial [of 1700000000000] by (simp add: pressOff_def)
  have inf: "currentSpeed (speedData (snd (onLocation (pressOff (initialAppState 1700000000000))
      \<lparr>speed = Some (2 ^ 1023), coords_accuracy = Some 5,
        location_timestamp = Some 1700000001000\<rparr>
      1700000001200))) = Infinity"
    by (rule onLocation_overflow [OF off _ overflowing_speeds(2)]) simp
  then have "warnings (snd (onLocation (pressOff (initialAppState 1700000000000))
      \<lparr>speed = Some (2 ^ 1023), coords_accuracy = Some 5,
        location_timestamp = Some 1700000001000\<rparr>
      1700000001200)) = [1700000001200]"
    by (simp add: onLocation_alert pressOff_def toISOString_throws_def initial_fields)
  moreover have "speedLimitRef (pressOff (initialAppState 1700000000000)) = Infinity"
    by (simp add: pressOff_def)
  ultimately show ?thesis using inf by blast
qed

subsection \<open>Partial positions\<close>

text \<open>
  C6, as the code has it. Every position produces a \<^verbatim>\<open>speedData\<close> update, in which an
  absent speed or accuracy is replaced by 0 and the timestamp is stored as received,
  without substitution; a position whose timestamp is a time value is processed to the end
  of the callback, whether or not its accuracy is absent.
\<close>

theorem partial_sample_handling:
  "speedData (snd (onLocation st loc now)) =
     \<lparr>currentSpeed = parseFloat (toFixed1
        (js_add (fst (js_kalmanFilter (kalman st)
            (js_convertToKmh (case speed loc of None \<Rightarrow> Finite 0 | Some v \<Rightarrow> Finite v))))
          (Finite CALIBRATION))),
      accuracy = (case coords_accuracy loc of None \<Rightarrow> 0 | Some a \<Rightarrow> a),
      timestamp = location_timestamp loc\<rparr> \<and>
   (coords_accuracy loc = None \<longrightarrow> accuracy (speedData (snd (onLocation st loc now))) = 0) \<and>
   (\<not> toISOString_throws (location_timestamp loc) \<longrightarrow> fst (onLocation st loc now) = Completed) \<and>
   length (published st samples) = length samples"
  by (simp add: onLocation_speedData onLocation_outcome published_length)

theorem partial_sample_handling_witness:
  "speedData (snd (onLocation (initialAppState 1700000000000)
      \<lparr>speed = Some 30, coords_accuracy = None, location_timestamp = Some 1700000001000\<rparr>
      1700000001200)) =
     \<lparr>currentSpeed = Finite 100, accuracy = 0, timestamp = Some 1700000001000\<rparr> \<and>
   fst (onLocation (initialAppState 1700000000000)
      \<lparr>speed = Some 30, coords_accuracy = None, location_timestamp = Some 1700000001000\<rparr>
      1700000001200) = Completed"
  using partial_sample_handling [of "initialAppState 1700000000000"
      "\<lparr>speed = Some 30, coords_accuracy = None, location_timestamp = Some 1700000001000\<rparr>"
      1700000001200 "[]"]
  by (simp add: toISOString_throws_def initialAppState_def
      js_createKalmanFilter_def js_convertToKmh_def js_kalmanFilter_def js_sub_def
      overflow_small CALIBRATION_def Let_def)

text \<open>
  The claim as stated fails for an absent timestamp: the update stores the absent
  timestamp, not 0, and building the debug text then throws, which skips the limit check
  that the same position with a timestamp passes.
\<close>

theorem partial_sample_handling_counterexample:
  "timestamp (speedData (snd (onLocation (initialAppState 1700000000000)
      \<lparr>speed = Some 30, coords_accuracy = Some 5, location_timestamp = None\<rparr>
      1700000001200))) = None \<and>
   fst (onLocation (initialAppState 1700000000000)
      \<lparr>speed = Some 30, coords_accuracy = Some 5, location_timestamp = None\<rparr>
      1700000001200) = RangeError \<and>
   warnings (snd (onLocation (initialAppState 1700000000000)
      \<lparr>speed = Some 30, coords_accuracy = Some 5, location_timestamp = None\<rparr>
      1700000001200)) = [] \<and>
   warnings (snd (onLocation (initialAppState 1700000000000)
      \<lparr>speed = Some 30, coords_accuracy = Some 5, location_timestamp = Some 1700000001000\<rparr>
      1700000001200)) = [1700000001200]"
  using first_sample_30(2) [of "\<lparr>speed = Some 30, coords_accuracy = Some 5, location_timestamp = Some 1700000001000\<rparr>"
      1700000000000 1700000001200]
  by (simp add: onLocation_alert onLocation_speedData onLocation_outcome
      toISOString_throws_def initial_fields)

subsection \<open>Rounding and the display floor\<close>

text \<open>
  Every selectable limit is a multiple of one tenth, so rounding to one decimal never takes
  a speed that has reached the limit below it.
\<close>

lemma SPEED_LIMITS_tenths:
  assumes "l \<in> set SPEED_LIMITS"
  shows "\<exists>k. l = real_of_int k / 10 \<and> 0 \<le> l"
proof -
  from assms have "l \<in> {20, 40, 50, 60, 70, 80, 90, 100, 120}"
    by (simp add: SPEED_LIMITS_def)
  then have "l = real_of_int (\<lfloor>l\<rfloor> * 10) / 10 \<and> 0 \<le> l" by auto
  then show ?thesis by blast
qed

lemma js_ge_rounded:
  assumes "l \<in> set SPEED_LIMITS" "js_ge y (Finite l)"
  shows "js_ge (parseFloat (toFixed1 y)) (Finite l)"
proof (cases y)
  case (Finite x)
  from SPEED_LIMITS_tenths [OF assms(1)] obtain k where k: "l = real_of_int k / 10" and l: "0 \<le> l"
    by blast
  have lx: "l \<le> x" using assms(2) Finite by simp
  have "real_of_int k \<le> 10 * x" using lx k by simp
  moreover have "0 \<le> x" using lx l by simp
  ultimately have "js_ge (parseFloat (toFixed1 (Finite x))) (Finite (real_of_int k / 10))"
    by (rule round1_ge)
  then show ?thesis by (simp add: k Finite)
next
  case Infinity
  then show ?thesis by simp
next
  case NegInfinity
  then show ?thesis using assms(2) by simp
next
  case NaN
  then show ?thesis using assms(2) by simp
qed

text \<open>
  C7, as the code has it. The zero floor below 2 km/h is applied by \<^verbatim>\<open>displaySpeed\<close> only.
  Rounding to one decimal is applied before publishing, and the published, rounded,
  unfloored speed is the value compared with the limit: for a position with a time value
  as timestamp and the cool-down elapsed, the warning is played exactly when that rounded
  value is at least the limit, and always when the filtered and calibrated speed is at
  least a selectable limit.
\<close>

theorem rounding_and_floor:
  "(let filteredSpeed = js_add (fst (js_kalmanFilter (kalman st)
          (js_convertToKmh (case speed loc of None \<Rightarrow> Finite 0 | Some v \<Rightarrow> Finite v))))
          (Finite CALIBRATION);
        st' = snd (onLocation st loc now)
    in currentSpeed (speedData st') = parseFloat (toFixed1 filteredSpeed) \<and>
       (\<not> toISOString_throws (location_timestamp loc) \<and> now - lastSpeedWarning st > 5000 \<longrightarrow>
          (warnings st' = now # warnings st) =
            js_ge (parseFloat (toFixed1 filteredSpeed)) (speedLimitRef st)) \<and>
       (\<not> toISOString_throws (location_timestamp loc) \<and> now - lastSpeedWarning st > 5000 \<and>
        l \<in> set SPEED_LIMITS \<and> speedLimitRef st = Finite l \<and> js_ge filteredSpeed (Finite l) \<longrightarrow>
          warnings st' = now # warnings st)) \<and>
   displaySpeed sd =
     toFixed1 (if js_lt (currentSpeed sd) (Finite 2) then Finite 0 else currentSpeed sd) \<and>
   (js_lt (currentSpeed sd) (Finite 2) \<longrightarrow> displaySpeed sd = (False, Tenths 0))"
proof -
  have "displaySpeed sd =
      toFixed1 (if js_lt (currentSpeed sd) (Finite 2) then Finite 0 else currentSpeed sd)"
    by (simp add: displaySpeed_def Let_def)
  moreover have "toFixed1 (Finite 0) = (False, Tenths 0)"
    by simp
  ultimately show ?thesis
    using js_ge_rounded [of l]
    by (simp add: Let_def onLocation_alert onLocation_speedData)
qed

theorem rounding_and_floor_witness:
  "warnings (snd (onLocation (pressLimit 20 (initialAppState 1700000000000))
      \<lparr>speed = Some 6, coords_accuracy = Some 5, location_timestamp = Some 1700000001000\<rparr>
      1700000001200)) = [1700000001200] \<and>
   currentSpeed (speedData (snd (onLocation (pressLimit 20 (initialAppState 1700000000000))
      \<lparr>speed = Some 6, coords_accuracy = Some 5, location_timestamp = Some 1700000001000\<rparr>
      1700000001200))) = Finite (208 / 10) \<and>
   displaySpeed \<lparr>currentSpeed = Finite 1, accuracy = 5, timestamp = Some 1700000001000\<rparr>
     = (False, Tenths 0)"
  using rounding_and_floor [of "pressLimit 20 (initialAppState 1700000000000)"
      "\<lparr>speed = Some 6, coords_accuracy = Some 5, location_timestamp = Some 1700000001000\<rparr>"
      1700000001200 20 "\<lparr>currentSpeed = Finite 1, accuracy = 5, timestamp = Some 1700000001000\<rparr>"]
  by (simp add: Let_def pressLimit_def toISOString_throws_def initialAppState_def SPEED_LIMITS_def
      js_createKalmanFilter_def js_convertToKmh_def js_kalmanFilter_def js_sub_def
      overflow_small CALIBRATION_def)

text \<open>
  The claim as stated fails: rounding reaches the comparison. At 5.75 m/s with limit 20 the
  filtered and calibrated speed is 19.975, below the limit; 20.0 is compared and the
  warning is played.
\<close>

theorem rounding_and_floor_counterexample:
  "js_add (fst (js_kalmanFilter js_createKalmanFilter (js_convertToKmh (Finite 5.75))))
      (Finite CALIBRATION) = Finite 19.975 \<and>
   speedLimitRef (pressLimit 20 (initialAppState 1700000000000)) = Finite 20 \<and>
   currentSpeed (speedData (snd (onLocation (pressLimit 20 (initialAppState 1700000000000))
      \<lparr>speed = Some 5.75, coords_accuracy = Some 5, location_timestamp = Some 1700000001000\<rparr>
      1700000001200))) = Finite 20 \<and>
   warnings (snd (onLocation (pressLimit 20 (initialAppState 1700000000000))
      \<lparr>speed = Some 5.75, coords_accuracy = Some 5, location_timestamp = Some 1700000001000\<rparr>
      1700000001200)) = [1700000001200]"
  by (simp add: Let_def onLocation_def pressLimit_def
      toISOString_throws_def initialAppState_def
      js_createKalmanFilter_def js_convertToKmh_def js_kalmanFilter_def js_sub_def
      overflow_small CALIBRATION_def)

subsection \<open>Standing still\<close>

text \<open>A finite filter state whose estimate is 0 keeps it at 0 on the measurement 0.\<close>

lemma zero_sample:
  assumes "kalman st = finite_state s" "R s = 1/10" "Q s = 1/10" "0 \<le> P s" "P s \<le> 1"
    "X s = 0" "speed loc = Some 0"
  shows "kalman (snd (onLocation st loc now)) = finite_state (snd (kalmanFilter s 0))"
    and "X (snd (kalmanFilter s 0)) = 0"
    and "currentSpeed (speedData (snd (onLocation st loc now))) = Finite 1"
proof -
  have x: "X s + 1 < overflow_threshold" using small_in_range [of 0] by (simp add: assms(6))
  have r: "0 * 3.6 + 1 < overflow_threshold" using small_in_range [of 0] by simp
  note ex = onLocation_exact(1,2) [OF assms(1-5) _ x r]
  show "kalman (snd (onLocation st loc now)) = finite_state (snd (kalmanFilter s 0))"
    using ex(1) assms(6,7) by (simp add: convertToKmh_def)
  show x0: "X (snd (kalmanFilter s 0)) = 0"
    by (simp add: step_fields assms(6))
  show "currentSpeed (speedData (snd (onLocation st loc now))) = Finite 1"
    using ex(2) assms(6,7) x0 by (simp add: convertToKmh_def kalmanFilter_value CALIBRATION_def)
qed

lemma published_zero:
  assumes "kalman st = finite_state s" "R s = 1/10" "Q s = 1/10" "0 \<le> P s" "P s \<le> 1" "X s = 0"
    "\<forall>(loc, now) \<in> set samples. speed loc = Some 0"
    "t \<in> set (published st samples)"
  shows "currentSpeed (speedData t) = Finite 1"
  using assms
proof (induction samples arbitrary: st s)
  case Nil
  then show ?case by simp
next
  case (Cons a samples)
  obtain loc now where a: "a = (loc, now)" by (cases a)
  let ?st' = "snd (onLocation st loc now)"
  let ?s' = "snd (kalmanFilter s 0)"
  from Cons.prems(7) have z: "speed loc = Some 0"
    and rest: "\<forall>(loc, now) \<in> set samples. speed loc = Some 0"
    by (simp_all add: a)
  note zs = zero_sample [OF Cons.prems(1-6) z]
  have cov: "0 \<le> P ?s'" "P ?s' \<le> 1"
    using step_cov [OF Cons.prems(4,2,3), of 0] by simp_all
  from Cons.prems(8) have "t = ?st' \<or> t \<in> set (published ?st' samples)"
    by (simp add: a Let_def)
  then show ?case
  proof
    assume "t = ?st'"
    then show ?thesis using zs(3) by simp
  next
    assume "t \<in> set (published ?st' samples)"
    with zs(1) _ _ cov zs(2) rest show ?thesis
      by (rule Cons.IH) (simp_all add: step_fields(1,2) Cons.prems(2,3))
  qed
qed

text \<open>
  C9. For every stream of positions with raw speed 0 from the start of tracking, every
  published speed is the calibration constant 1 (which one-decimal rounding leaves
  unchanged) and \<^verbatim>\<open>displaySpeed\<close> shows 0.0, the value being below 2.
\<close>

theorem zero_speed_publishes_calibration:
  assumes "\<forall>(loc, now) \<in> set samples. speed loc = Some 0"
  shows "length (published (initialAppState t0) samples) = length samples \<and>
    (\<forall>s \<in> set (published (initialAppState t0) samples).
       currentSpeed (speedData s) = parseFloat (toFixed1 (Finite CALIBRATION)) \<and>
       currentSpeed (speedData s) = Finite 1 \<and>
       displaySpeed (speedData s) = (False, Tenths 0) \<and>
       parseFloat (displaySpeed (speedData s)) = Finite 0)"
proof -
  have "currentSpeed (speedData s) = Finite 1"
    if "s \<in> set (published (initialAppState t0) samples)" for s
    using published_zero [OF initial_fields(1) _ _ _ _ _ assms that]
    by (simp add: createKalmanFilter_fields)
  then show ?thesis
    by (simp add: published_length displaySpeed_def CALIBRATION_def)
qed

theorem zero_speed_publishes_calibration_witness:
  "map (\<lambda>s. currentSpeed (speedData s)) (published (initialAppState 1700000000000)
     [(\<lparr>speed = Some 0, coords_accuracy = Some 5, location_timestamp = Some 1700000001000\<rparr>,
       1700000001200),
      (\<lparr>speed = Some 0, coords_accuracy = Some 5, location_timestamp = Some 1700000002000\<rparr>,
       1700000002200)]) = [Finite 1, Finite 1] \<and>
   map (\<lambda>s. displaySpeed (speedData s)) (published (initialAppState 1700000000000)
     [(\<lparr>speed = Some 0, coords_accuracy = Some 5, location_timestamp = Some 1700000001000\<rparr>,
       1700000001200),
      (\<lparr>speed = Some 0, coords_accuracy = Some 5, location_timestamp = Some 1700000002000\<rparr>,
       1700000002200)]) = [(False, Tenths 0), (False, Tenths 0)]"
  using zero_speed_publishes_calibration [of
     "[(\<lparr>speed = Some 0, coords_accuracy = Some 5, location_timestamp = Some 1700000001000\<rparr>,
       1700000001200),
      (\<lparr>speed = Some 0, coords_accuracy = Some 5, location_timestamp = Some 1700000002000\<rparr>,
       1700000002200)]" 1700000000000]
  by (simp add: Let_def CALIBRATION_def)

end
